theory Spec2Isabelle
  imports Complex_Main "HOL-Library.Sublist" "HOL-Library.AList"
    "HOL-Library.Char_ord" "HOL-Library.List_Lexorder" "HOL-Library.Multiset"
begin

section \<open>Python strings\<close>

text \<open>
  A Python \<open>str\<close> is modelled as a \<^typ>\<open>string\<close>, the UTF-8 bytes of the text. The string
  methods that \<open>main.py\<close> calls are written out below. They agree with Python on ASCII
  text; whitespace and letter case outside ASCII are left as they are.
\<close>

text \<open>The ASCII characters for which \<open>str.isspace\<close> holds; \<open>str.strip()\<close> removes them.\<close>

definition is_space :: "char \<Rightarrow> bool" where
  "is_space c \<longleftrightarrow> c \<in> {CHR '' '', CHR 0x09, CHR 0x0A, CHR 0x0B, CHR 0x0C, CHR 0x0D,
                           CHR 0x1C, CHR 0x1D, CHR 0x1E, CHR 0x1F}"

definition py_strip :: "string \<Rightarrow> string" where
  "py_strip s = rev (dropWhile is_space (rev (dropWhile is_space s)))"

definition startswith :: "string \<Rightarrow> string \<Rightarrow> bool" where
  "startswith s pre \<longleftrightarrow> prefix pre s"

definition endswith :: "string \<Rightarrow> string \<Rightarrow> bool" where
  "endswith s suf \<longleftrightarrow> prefix (rev suf) (rev s)"

text \<open>
  \<open>s.replace(old, new)\<close> for a non-empty \<open>old\<close>: the occurrences of \<open>old\<close> are found from
  the left and do not overlap. Every call in \<open>main.py\<close> passes a non-empty literal.
\<close>

function py_replace :: "string \<Rightarrow> string \<Rightarrow> string \<Rightarrow> string" where
  "py_replace old new [] = []"
| "py_replace old new (c # cs) =
     (if prefix old (c # cs) then new @ py_replace old new (drop (length old - 1) cs)
      else c # py_replace old new cs)"
  by pat_completeness auto
termination
  by (relation "measure (\<lambda>(old, new, s). length s)") auto

text \<open>
  \<open>s.split(sep)\<close> for a non-empty \<open>sep\<close>: the pieces between the occurrences of \<open>sep\<close>,
  found from the left; the result is never empty (\<open>"".split("/")\<close> is \<open>[""]\<close>).
\<close>

function py_split :: "string \<Rightarrow> string \<Rightarrow> string list" where
  "py_split sep [] = [[]]"
| "py_split sep (c # cs) =
     (if prefix sep (c # cs) then [] # py_split sep (drop (length sep - 1) cs)
      else (case py_split sep cs of
              [] \<Rightarrow> [[c]]
            | p # ps \<Rightarrow> (c # p) # ps))"
  by pat_completeness auto
termination
  by (relation "measure (\<lambda>(sep, s). length s)") auto

text \<open>\<open>sub in s\<close> on strings: \<open>sub\<close> occurs in \<open>s\<close> as a contiguous piece.\<close>

fun contains :: "string \<Rightarrow> string \<Rightarrow> bool" where
  "contains s sub \<longleftrightarrow> prefix sub s \<or> (case s of [] \<Rightarrow> False | _ # cs \<Rightarrow> contains cs sub)"

definition lower_char :: "char \<Rightarrow> char" where
  "lower_char c =
     (case map_of (zip ''ABCDEFGHIJKLMNOPQRSTUVWXYZ'' ''abcdefghijklmnopqrstuvwxyz'') c of
        None \<Rightarrow> c
      | Some d \<Rightarrow> d)"

definition py_lower :: "string \<Rightarrow> string" where
  "py_lower s = map lower_char s"

section \<open>Errors\<close>

text \<open>
  The exceptions that the code can raise, as values. \<open>ValueError\<close> carries its message,
  \<open>KeyError\<close> the missing key. \<open>NotModelled\<close> is no exception of Python: it marks the
  places where the behaviour of the code lies outside this model.
\<close>

datatype error =
    ValueError string
  | KeyError string
  | TypeError
  | AttributeError
  | JSONDecodeError
  | OverflowError
  | OSError
  | NotModelled

section \<open>\<open>extract_repo_info\<close>\<close>

text \<open>Lines 240 to 244: \<open>strip()\<close>, then one trailing slash is removed.\<close>

definition clean_url :: "string \<Rightarrow> string" where
  "clean_url repo_url =
     (let url = py_strip repo_url
      in if endswith url ''/'' then butlast url else url)"

text \<open>Lines 247 to 255: the three formats.\<close>

definition url_parts :: "string \<Rightarrow> string list" where
  "url_parts url =
     (if startswith url ''https://'' then
        py_split ''/'' (py_replace ''https://github.com/'' '''' url)
      else if startswith url ''git@github.com:'' then
        py_split ''/'' (py_replace ''git@github.com:'' '''' url)
      else py_split ''/'' url)"

definition extract_repo_info :: "string \<Rightarrow> error + string \<times> string" where
  "extract_repo_info repo_url =
     (let parts = url_parts (clean_url repo_url)
      in if length parts \<ge> 2 then Inr (parts ! 0, parts ! 1)
         else Inl (ValueError (''Could not extract owner and repo name from URL: '' @ repo_url)))"

section \<open>JSON values\<close>

text \<open>
  What \<open>response.json()\<close> returns: the Python value of a JSON document. A \<open>dict\<close> is an
  association list in insertion order, looked up with \<^const>\<open>map_of\<close>; the parser gives
  every key once. JSON numbers are the integers, which is all the GitHub payloads hold.
\<close>

datatype json =
    JNull
  | JBool bool
  | JNum int
  | JStr string
  | JArr "json list"
  | JObj "(string \<times> json) list"

text \<open>Truth value testing, as in \<open>if x:\<close>, \<open>not x\<close> and \<open>x or y\<close>.\<close>

fun truthy :: "json \<Rightarrow> bool" where
  "truthy JNull = False"
| "truthy (JBool b) = b"
| "truthy (JNum n) = (n \<noteq> 0)"
| "truthy (JStr s) = (s \<noteq> [])"
| "truthy (JArr xs) = (xs \<noteq> [])"
| "truthy (JObj kvs) = (kvs \<noteq> [])"

fun is_list :: "json \<Rightarrow> bool" where
  "is_list (JArr xs) = True"
| "is_list _ = False"

fun is_dict :: "json \<Rightarrow> bool" where
  "is_dict (JObj kvs) = True"
| "is_dict _ = False"

text \<open>\<open>d.get(key, default)\<close>; only a \<open>dict\<close> has the method.\<close>

definition get_or :: "(string \<times> json) list \<Rightarrow> string \<Rightarrow> json \<Rightarrow> json" where
  "get_or kvs key dflt = (case map_of kvs key of None \<Rightarrow> dflt | Some v \<Rightarrow> v)"

fun dict_get :: "json \<Rightarrow> string \<Rightarrow> json \<Rightarrow> error + json" where
  "dict_get (JObj kvs) key dflt = Inr (get_or kvs key dflt)"
| "dict_get _ key dflt = Inl AttributeError"

text \<open>
  \<open>x[key]\<close> with a string key: a \<open>dict\<close> without the key raises \<open>KeyError\<close>; a list or a
  string takes integer indices only, and the other values cannot be subscripted.
\<close>

fun subscript :: "json \<Rightarrow> string \<Rightarrow> error + json" where
  "subscript (JObj kvs) key =
     (case map_of kvs key of None \<Rightarrow> Inl (KeyError key) | Some v \<Rightarrow> Inr v)"
| "subscript _ key = Inl TypeError"

text \<open>
  \<open>key in x\<close> with a string key: the keys of a \<open>dict\<close>, the elements of a list, the
  substrings of a string; the other values are not containers.
\<close>

fun py_in :: "string \<Rightarrow> json \<Rightarrow> error + bool" where
  "py_in key (JObj kvs) = Inr (key \<in> fst ` set kvs)"
| "py_in key (JArr xs) = Inr (JStr key \<in> set xs)"
| "py_in key (JStr s) = Inr (contains s key)"
| "py_in key _ = Inl TypeError"

subsection \<open>\<open>str()\<close> of a value, as an f-string inserts it\<close>

definition digit_char :: "nat \<Rightarrow> char" where
  "digit_char n = ''0123456789abcdef'' ! n"

function str_nat :: "nat \<Rightarrow> string" where
  "str_nat n = (if n < 10 then [digit_char n] else str_nat (n div 10) @ [digit_char (n mod 10)])"
  by pat_completeness auto
termination
  by (relation "measure id") auto

definition str_int :: "int \<Rightarrow> string" where
  "str_int i = (if i < 0 then CHR ''-'' # str_nat (nat (- i)) else str_nat (nat i))"

text \<open>
  \<open>repr\<close> of a string: in single quotes, unless it holds a single quote and no double
  quote; the quote and the backslash are escaped, tab, newline and return are written
  \<open>\t\<close>, \<open>\n\<close>, \<open>\r\<close>, the other control characters \<open>\xhh\<close>. Bytes from 0x80 on stand
  for printable characters and are kept.
\<close>

definition repr_char :: "char \<Rightarrow> char \<Rightarrow> string" where
  "repr_char quote c =
     (if c = quote \<or> c = CHR 0x5C then [CHR 0x5C, c]
      else if c = CHR 0x09 then [CHR 0x5C, CHR ''t'']
      else if c = CHR 0x0A then [CHR 0x5C, CHR ''n'']
      else if c = CHR 0x0D then [CHR 0x5C, CHR ''r'']
      else if of_char c < (32::nat) \<or> c = CHR 0x7F then
        [CHR 0x5C, CHR ''x'', digit_char (of_char c div 16), digit_char (of_char c mod 16)]
      else [c])"

definition repr_str :: "string \<Rightarrow> string" where
  "repr_str s =
     (let quote = (if CHR 0x27 \<in> set s \<and> CHR 0x22 \<notin> set s then CHR 0x22 else CHR 0x27)
      in [quote] @ concat (map (repr_char quote) s) @ [quote])"

fun join :: "string \<Rightarrow> string list \<Rightarrow> string" where
  "join sep [] = []"
| "join sep [x] = x"
| "join sep (x # y # ys) = x @ sep @ join sep (y # ys)"

fun py_repr :: "json \<Rightarrow> string" where
  "py_repr JNull = ''None''"
| "py_repr (JBool b) = (if b then ''True'' else ''False'')"
| "py_repr (JNum n) = str_int n"
| "py_repr (JStr s) = repr_str s"
| "py_repr (JArr xs) = ''['' @ join '', '' (map py_repr xs) @ '']''"
| "py_repr (JObj kvs) =
     ''{'' @ join '', '' (map (\<lambda>kv. repr_str (fst kv) @ '': '' @ py_repr (snd kv)) kvs) @ ''}''"

fun py_str :: "json \<Rightarrow> string" where
  "py_str (JStr s) = s"
| "py_str v = py_repr v"

section \<open>\<open>get_user_social_links\<close>\<close>

text \<open>
  Lines 127 to 141: the platform key for a blog URL. \<open>split\<close> never returns an empty
  list, so \<open>[-1]\<close> and \<open>[0]\<close> are \<^const>\<open>last\<close> and \<^const>\<open>hd\<close>.
\<close>

definition blog_domain :: "string \<Rightarrow> string" where
  "blog_domain blog_url = py_lower (hd (py_split ''/'' (last (py_split ''//'' blog_url))))"

definition blog_platform :: "string \<Rightarrow> string" where
  "blog_platform blog_url =
     (let domain = blog_domain blog_url
      in if contains domain ''twitter.com'' \<or> contains domain ''x.com'' then ''Twitter''
         else if contains domain ''linkedin.com'' then ''LinkedIn''
         else if contains domain ''facebook.com'' then ''Facebook''
         else if contains domain ''instagram.com'' then ''Instagram''
         else if contains domain ''github.com'' then ''GitHub''
         else ''Website'')"

text \<open>
  Lines 124 to 141. \<open>startswith\<close> is a method of \<open>str\<close>: a blog that is true and not a
  string raises \<open>AttributeError\<close>.
\<close>

definition blog_links :: "json \<Rightarrow> error + (string \<times> json) list" where
  "blog_links blog =
     (if truthy blog then
        (case blog of
           JStr blog_url \<Rightarrow>
             if startswith blog_url ''http''
             then Inr [(blog_platform blog_url, JStr blog_url)]
             else Inr []
         | _ \<Rightarrow> Inl AttributeError)
      else Inr [])"

text \<open>
  The result is a \<open>dict\<close> in insertion order: \<open>d[k] = v\<close> is \<^const>\<open>AList.update\<close>, which
  replaces the value of a key in place and puts a new key at the end.
\<close>

definition get_user_social_links :: "json \<Rightarrow> error + (string \<times> json) list" where
  "get_user_social_links user_data =
     (case dict_get user_data ''blog'' JNull of
        Inl e \<Rightarrow> Inl e
      | Inr blog \<Rightarrow>
          (case blog_links blog of
             Inl e \<Rightarrow> Inl e
           | Inr social_links \<Rightarrow>
               (case dict_get user_data ''html_url'' JNull of
                  Inl e \<Rightarrow> Inl e
                | Inr html_url \<Rightarrow>
                    (let social_links1 =
                           (if truthy html_url
                            then AList.update ''GitHub'' html_url social_links
                            else social_links)
                     in case dict_get user_data ''twitter_username'' JNull of
                          Inl e \<Rightarrow> Inl e
                        | Inr twitter_username \<Rightarrow>
                            Inr (if truthy twitter_username
                                 then AList.update ''Twitter''
                                        (JStr (''https://twitter.com/'' @ py_str twitter_username))
                                        social_links1
                                 else social_links1)))))"

section \<open>The latest commit date\<close>

text \<open>
  Lines 177 to 182. The two \<open>isinstance\<close> tests guard the list and its first element;
  \<open>commit_info\<close> and \<open>commit_info["author"]\<close> are used as they come, so \<open>in\<close> and the
  subscripts can raise.
\<close>

definition author_date :: "json \<Rightarrow> error + json" where
  "author_date commit_info =
     (case py_in ''author'' commit_info of
        Inl e \<Rightarrow> Inl e
      | Inr False \<Rightarrow> Inr JNull
      | Inr True \<Rightarrow>
          (case subscript commit_info ''author'' of
             Inl e \<Rightarrow> Inl e
           | Inr author \<Rightarrow>
               (case py_in ''date'' author of
                  Inl e \<Rightarrow> Inl e
                | Inr False \<Rightarrow> Inr JNull
                | Inr True \<Rightarrow> subscript author ''date'')))"

definition latest_commit_date_of :: "json \<Rightarrow> error + json" where
  "latest_commit_date_of recent_commits =
     (if truthy recent_commits \<and> is_list recent_commits then
        (case recent_commits of
           JArr (first # _) \<Rightarrow>
             if is_dict first \<and> py_in ''commit'' first = Inr True then
               (case subscript first ''commit'' of
                  Inl e \<Rightarrow> Inl e
                | Inr commit_info \<Rightarrow> author_date commit_info)
             else Inr JNull
         | _ \<Rightarrow> Inr JNull)
      else Inr JNull)"

section \<open>The contributor record\<close>

text \<open>The \<open>dict\<close> that lines 187 to 199 append, one field for each key.\<close>

record details =
  username :: json
  name :: json
  email :: json
  bio :: json
  company :: json
  location :: json
  avatar_url :: json
  profile_url :: json
  contributions :: json
  latest_commit_date :: json
  social_links :: "(string \<times> json) list"

text \<open>
  Lines 176 to 199, for one contributor, once both requests have returned. The fields
  are evaluated in the order of the literal. \<open>get_user_social_links\<close> has called
  \<open>user_data.get\<close> by then, so \<open>user_data\<close> is a \<open>dict\<close> here.
\<close>

definition contributor_record ::
  "json \<Rightarrow> json \<Rightarrow> json \<Rightarrow> json \<Rightarrow> error + details" where
  "contributor_record uname contributor user_data recent_commits =
     (case latest_commit_date_of recent_commits of
        Inl e \<Rightarrow> Inl e
      | Inr date \<Rightarrow>
          (case get_user_social_links user_data of
             Inl e \<Rightarrow> Inl e
           | Inr links \<Rightarrow>
               (case user_data of
                  JObj profile \<Rightarrow>
                    (case subscript contributor ''avatar_url'' of
                       Inl e \<Rightarrow> Inl e
                     | Inr avatar \<Rightarrow>
                         (case subscript contributor ''contributions'' of
                            Inl e \<Rightarrow> Inl e
                          | Inr contribs \<Rightarrow>
                              Inr \<lparr>username = uname,
                                   name = get_or profile ''name'' (JStr ''''),
                                   email = get_or profile ''email'' (JStr ''''),
                                   bio = get_or profile ''bio'' (JStr ''''),
                                   company = get_or profile ''company'' (JStr ''''),
                                   location = get_or profile ''location'' (JStr ''''),
                                   avatar_url = avatar,
                                   profile_url = get_or profile ''html_url'' (JStr ''''),
                                   contributions = contribs,
                                   latest_commit_date = date,
                                   social_links = links\<rparr>))
                | _ \<Rightarrow> Inl AttributeError)))"

section \<open>Sorting the report\<close>

text \<open>Line 204: \<open>x["latest_commit_date"] or "0"\<close>.\<close>

definition sort_key_of :: "details \<Rightarrow> json" where
  "sort_key_of x = (if truthy (latest_commit_date x) then latest_commit_date x else JStr ''0'')"

fun is_str :: "json \<Rightarrow> bool" where
  "is_str (JStr s) = True"
| "is_str _ = False"

fun str_of :: "json \<Rightarrow> string" where
  "str_of (JStr s) = s"
| "str_of _ = []"

fun is_num :: "json \<Rightarrow> bool" where
  "is_num (JNum n) = True"
| "is_num (JBool b) = True"
| "is_num _ = False"

fun num_of :: "json \<Rightarrow> int" where
  "num_of (JNum n) = n"
| "num_of (JBool b) = (if b then 1 else 0)"
| "num_of _ = 0"

text \<open>
  \<open>sorted(xs, key=f, reverse=True)\<close> is stable: it gives the descending order in which
  items with equal keys keep their input order, which is the reverse of the stable
  ascending sort of the reversed list.
\<close>

definition sorted_reverse :: "('a \<Rightarrow> 'k::linorder) \<Rightarrow> 'a list \<Rightarrow> 'a list" where
  "sorted_reverse f xs = rev (sort_key f (rev xs))"

text \<open>
  Lines 202 to 206. The keys are compared with \<open><\<close>. Strings are ordered by code point,
  which for UTF-8 bytes is the lexicographic order of the bytes; numbers (and the
  booleans among them) by value. A string against a number, or a \<open>dict\<close> against
  anything, raises \<open>TypeError\<close>, and a sort of two or more keys cannot finish without such
  a comparison when the keys are not all strings or all numbers. Which pairs of lists
  the sort compares depends on its steps: keys that are all lists are beyond this
  model.
\<close>

definition sorted_contributors :: "details list \<Rightarrow> error + details list" where
  "sorted_contributors cs =
     (let keys = map sort_key_of cs
      in if list_all is_str keys then Inr (sorted_reverse (str_of \<circ> sort_key_of) cs)
         else if list_all is_num keys then Inr (sorted_reverse (num_of \<circ> sort_key_of) cs)
         else if length cs \<le> 1 then Inr cs
         else if list_all is_list keys then Inl NotModelled
         else Inl TypeError)"

section \<open>The analyzer and the world around it\<close>

text \<open>
  The fields of \<open>GitHubContributorAnalyzer\<close>. \<open>token\<close> is the \<open>GITHUB_TOKEN\<close> of the
  environment, \<open>None\<close> when it is not set.
\<close>

record analyzer =
  base_url :: string
  headers :: "(string \<times> string) list"
  rate_limit_remaining :: "int option"
  rate_limit_reset :: "int option"

definition init :: "string option \<Rightarrow> analyzer" where
  "init token =
     \<lparr>base_url = ''https://api.github.com'',
      headers =
        (case token of
           None \<Rightarrow> [(''Accept'', ''application/vnd.github.v3+json'')]
         | Some t \<Rightarrow>
             if t \<noteq> [] then [(''Accept'', ''application/vnd.github.v3+json''),
                             (''Authorization'', ''token '' @ t)]
             else [(''Accept'', ''application/vnd.github.v3+json'')]),
      rate_limit_remaining = None,
      rate_limit_reset = None\<rparr>"

text \<open>
  A request as \<open>requests.get\<close> receives it, and what the code reads of the response: the
  status, the two rate-limit headers (\<open>None\<close> when the header is absent; a header that is
  present holds a decimal integer), the body as \<open>response.json()\<close> parses it (\<open>None\<close>
  when the body is not JSON and \<open>json()\<close> raises), and \<open>response.text\<close>.
\<close>

record request =
  url :: string
  req_headers :: "(string \<times> string) list"
  params :: "(string \<times> json) list option"

record response =
  status_code :: int
  x_ratelimit_remaining :: "int option"
  x_ratelimit_reset :: "int option"
  body :: "json option"
  text_of :: string

text \<open>
  What the program does to the world, in order: it prints, sleeps and sends requests.
  A message is kept as its parts, not as the formatted line.
\<close>

datatype message =
    Rate_limit_reached real
  | Rate_limit_exceeded real
  | Error_status int string
  | Analyzing string string
  | Found nat
  | Processing nat nat json

datatype event =
    Print message
  | Sleep real
  | Get request

text \<open>
  The world is the clock, in seconds since the epoch, the platform the program runs on
  and the events so far. The clock moves when the program sleeps, by the length asked
  for. The platform is given by two functions. \<open>local_time\<close> turns a time since the
  epoch into the naive local date and time that \<open>datetime.fromtimestamp\<close> and
  \<open>datetime.now\<close> return, kept as the seconds that its fields count (the epoch time
  plus the offset from UTC in force at that time), or into the exception they raise
  (\<open>ValueError\<close>, \<open>OverflowError\<close> or \<open>OSError\<close> for a time they cannot represent).
  \<open>too_long\<close> gives the exception of \<open>time.sleep\<close> for a length the platform cannot
  wait for. The server is any function of the world before the request and of the
  request; it always answers, so the exceptions of \<open>requests.get\<close> itself do not occur.
\<close>

record world =
  clock :: real
  local_time :: "real \<Rightarrow> error + real"
  too_long :: "real \<Rightarrow> error option"
  trace :: "event list"

type_synonym server = "world \<Rightarrow> request \<Rightarrow> response"

definition emit :: "event \<Rightarrow> world \<Rightarrow> world" where
  "emit e w = w\<lparr>trace := trace w @ [e]\<rparr>"

text \<open>
  \<open>time.sleep(secs)\<close> raises \<open>ValueError\<close> for a negative length, and what the platform
  says for a length that is too long.
\<close>

definition sleep :: "real \<Rightarrow> world \<Rightarrow> error + world" where
  "sleep secs w =
     (if secs < 0 then Inl (ValueError ''sleep length must be non-negative'')
      else (case too_long w secs of
              Some e \<Rightarrow> Inl e
            | None \<Rightarrow> Inr (emit (Sleep secs) (w\<lparr>clock := clock w + secs\<rparr>))))"

definition fromtimestamp :: "world \<Rightarrow> int \<Rightarrow> error + real" where
  "fromtimestamp w timestamp = local_time w (real_of_int timestamp)"

definition now :: "world \<Rightarrow> error + real" where
  "now w = local_time w (clock w)"

definition requests_of :: "event list \<Rightarrow> request list" where
  "requests_of evs = concat (map (\<lambda>e. case e of Get r \<Rightarrow> [r] | _ \<Rightarrow> []) evs)"

section \<open>\<open>_make_request\<close>\<close>

text \<open>
  Lines 42 to 44, and again lines 61 to 63: the reset time is converted first, then the
  clock is read, and the two naive local times are subtracted,
  \<open>(reset_time - current_time).total_seconds() + 5\<close>.
\<close>

definition seconds_to_reset :: "world \<Rightarrow> int \<Rightarrow> error + real" where
  "seconds_to_reset w reset =
     (case fromtimestamp w reset of
        Inl e \<Rightarrow> Inl e
      | Inr reset_time \<Rightarrow>
          (case now w of
             Inl e \<Rightarrow> Inl e
           | Inr current_time \<Rightarrow> Inr (reset_time - current_time + 5)))"

text \<open>
  Lines 41 to 48: the exception raised, if any, and the world then. \<open>fromtimestamp(None)\<close>
  raises \<open>TypeError\<close>; the two fields are set together, so this does not happen in a
  run.
\<close>

definition pre_check :: "analyzer \<Rightarrow> world \<Rightarrow> error option \<times> world" where
  "pre_check a w =
     (case rate_limit_remaining a of
        None \<Rightarrow> (None, w)
      | Some remaining \<Rightarrow>
          if remaining \<le> 1 then
            (case rate_limit_reset a of
               None \<Rightarrow> (Some TypeError, w)
             | Some reset \<Rightarrow>
                 (case seconds_to_reset w reset of
                    Inl e \<Rightarrow> (Some e, w)
                  | Inr sleep_time \<Rightarrow>
                      if sleep_time > 0 then
                        (let w1 = emit (Print (Rate_limit_reached sleep_time)) w
                         in case sleep sleep_time w1 of
                              Inl e \<Rightarrow> (Some e, w1)
                            | Inr w2 \<Rightarrow> (None, w2))
                      else (None, w)))
          else (None, w))"

text \<open>Lines 53 to 56: both fields are set from the headers, 0 for an absent header.\<close>

definition update_rate_limit :: "response \<Rightarrow> analyzer \<Rightarrow> analyzer" where
  "update_rate_limit r a =
     a\<lparr>rate_limit_remaining := Some (case x_ratelimit_remaining r of None \<Rightarrow> 0 | Some n \<Rightarrow> n),
       rate_limit_reset := Some (case x_ratelimit_reset r of None \<Rightarrow> 0 | Some n \<Rightarrow> n)\<rparr>"

text \<open>
  Line 60, the second operand of \<open>and\<close>: \<open>response.json()\<close> raises when the body is not
  JSON, \<open>get\<close> is a method of \<open>dict\<close> only, and \<open>lower\<close> of \<open>str\<close> only.
\<close>

definition rate_limit_message :: "response \<Rightarrow> error + bool" where
  "rate_limit_message r =
     (case body r of
        None \<Rightarrow> Inl JSONDecodeError
      | Some j \<Rightarrow>
          (case dict_get j ''message'' (JStr '''') of
             Inl e \<Rightarrow> Inl e
           | Inr (JStr m) \<Rightarrow> Inr (contains (py_lower m) ''rate limit'')
           | Inr _ \<Rightarrow> Inl AttributeError))"

text \<open>
  Lines 58 to 70, up to the recursive call: the call either returns (a value or an
  exception) or waits and tries again.
\<close>

datatype outcome =
    Return "error + json" world
  | Retry world

definition handle_response :: "analyzer \<Rightarrow> response \<Rightarrow> world \<Rightarrow> outcome" where
  "handle_response a r w =
     (if status_code r = 200 then
        (case body r of
           None \<Rightarrow> Return (Inl JSONDecodeError) w
         | Some j \<Rightarrow> Return (Inr j) w)
      else
        (case (if status_code r = 403 then rate_limit_message r else Inr False) of
           Inl e \<Rightarrow> Return (Inl e) w
         | Inr True \<Rightarrow>
             (case rate_limit_reset a of
                None \<Rightarrow> Return (Inl TypeError) w
              | Some reset \<Rightarrow>
                  (case seconds_to_reset w reset of
                     Inl e \<Rightarrow> Return (Inl e) w
                   | Inr wait_time \<Rightarrow>
                       (let w1 = emit (Print (Rate_limit_exceeded wait_time)) w
                        in case sleep wait_time w1 of
                             Inl e \<Rightarrow> Return (Inl e) w1
                           | Inr w2 \<Rightarrow> Retry w2)))
         | Inr False \<Rightarrow>
             Return (Inr (JObj [])) (emit (Print (Error_status (status_code r) (text_of r))) w)))"

text \<open>
  The whole of \<open>_make_request\<close>. There is no bound on the retries: the value is \<open>None\<close>
  when the call never returns.
\<close>

partial_function (option) make_request ::
  "server \<Rightarrow> string \<Rightarrow> (string \<times> json) list option \<Rightarrow> analyzer \<times> world
     \<Rightarrow> ((error + json) \<times> analyzer \<times> world) option" where
  "make_request srv u ps s =
     (case pre_check (fst s) (snd s) of
        (Some e, w1) \<Rightarrow> Some (Inl e, fst s, w1)
      | (None, w1) \<Rightarrow>
          (let req = \<lparr>url = u, req_headers = headers (fst s), params = ps\<rparr>;
               r = srv w1 req;
               a2 = update_rate_limit r (fst s)
           in case handle_response a2 r (emit (Get req) w1) of
                Return v w3 \<Rightarrow> Some (v, a2, w3)
              | Retry w3 \<Rightarrow> make_request srv u ps (a2, w3)))"

section \<open>\<open>get_repository_contributors\<close>\<close>

fun items_of :: "json \<Rightarrow> json list" where
  "items_of (JArr xs) = xs"
| "items_of _ = []"

definition page_params :: "int \<Rightarrow> (string \<times> json) list" where
  "page_params page = [(''per_page'', JNum 100), (''page'', JNum page)]"

text \<open>
  The \<open>while True\<close> loop of lines 81 to 95, with \<open>page\<close> and \<open>contributors\<close> as they are
  at the head of the loop. The value is \<open>None\<close> when the loop never ends. The test of
  line 88 repeats the first half of line 85 and is never true there.
\<close>

partial_function (option) contributors_loop ::
  "server \<Rightarrow> string \<Rightarrow> int \<Rightarrow> json list \<Rightarrow> analyzer \<times> world
     \<Rightarrow> ((error + json list) \<times> analyzer \<times> world) option" where
  "contributors_loop srv u page contributors s =
     Option.bind (make_request srv u (Some (page_params page)) s)
       (\<lambda>(v, s1).
          case v of
            Inl e \<Rightarrow> Some (Inl e, s1)
          | Inr response_data \<Rightarrow>
              if \<not> truthy response_data \<or> \<not> is_list response_data then
                Some (Inr contributors, s1)
              else if length (items_of response_data) < 100 then
                Some (Inr (contributors @ items_of response_data), s1)
              else
                contributors_loop srv u (page + 1) (contributors @ items_of response_data) s1)"

definition contributors_url :: "analyzer \<Rightarrow> string \<Rightarrow> string \<Rightarrow> string" where
  "contributors_url a owner repo = base_url a @ ''/repos/'' @ owner @ ''/'' @ repo @ ''/contributors''"

definition get_repository_contributors ::
  "server \<Rightarrow> string \<Rightarrow> string \<Rightarrow> analyzer \<times> world
     \<Rightarrow> ((error + json list) \<times> analyzer \<times> world) option" where
  "get_repository_contributors srv owner repo s =
     contributors_loop srv (contributors_url (fst s) owner repo) 1 [] s"

section \<open>\<open>get_user_details\<close> and \<open>get_user_recent_commits\<close>\<close>

definition get_user_details ::
  "server \<Rightarrow> json \<Rightarrow> analyzer \<times> world \<Rightarrow> ((error + json) \<times> analyzer \<times> world) option" where
  "get_user_details srv uname s =
     make_request srv (base_url (fst s) @ ''/users/'' @ py_str uname) None s"

definition get_user_recent_commits ::
  "server \<Rightarrow> json \<Rightarrow> string \<Rightarrow> string \<Rightarrow> analyzer \<times> world
     \<Rightarrow> ((error + json) \<times> analyzer \<times> world) option" where
  "get_user_recent_commits srv uname owner repo s =
     make_request srv (base_url (fst s) @ ''/repos/'' @ owner @ ''/'' @ repo @ ''/commits'')
       (Some [(''author'', uname), (''per_page'', JNum 10)]) s"

section \<open>\<open>analyze_repository\<close>\<close>

text \<open>
  The \<open>for\<close> loop of lines 164 to 199 over the contributors that are left; \<open>i\<close> counts
  the ones done, \<open>n\<close> is the length of the whole list and \<open>acc\<close> is
  \<open>contributor_details\<close> so far.
\<close>

fun process_contributors ::
  "server \<Rightarrow> string \<Rightarrow> string \<Rightarrow> nat \<Rightarrow> nat \<Rightarrow> json list \<Rightarrow> details list
     \<Rightarrow> analyzer \<times> world \<Rightarrow> ((error + details list) \<times> analyzer \<times> world) option" where
  "process_contributors srv owner repo n i [] acc s = Some (Inr acc, s)"
| "process_contributors srv owner repo n i (contributor # rest) acc s =
     (case subscript contributor ''login'' of
        Inl e \<Rightarrow> Some (Inl e, s)
      | Inr uname \<Rightarrow>
          Option.bind
            (get_user_details srv uname (fst s, emit (Print (Processing (i + 1) n uname)) (snd s)))
            (\<lambda>(v1, s1).
               case v1 of
                 Inl e \<Rightarrow> Some (Inl e, s1)
               | Inr user_data \<Rightarrow>
                   Option.bind (get_user_recent_commits srv uname owner repo s1)
                     (\<lambda>(v2, s2).
                        case v2 of
                          Inl e \<Rightarrow> Some (Inl e, s2)
                        | Inr recent_commits \<Rightarrow>
                            (case contributor_record uname contributor user_data recent_commits of
                               Inl e \<Rightarrow> Some (Inl e, s2)
                             | Inr d \<Rightarrow>
                                 process_contributors srv owner repo n (i + 1) rest
                                   (acc @ [d]) s2))))"

definition analyze_repository ::
  "server \<Rightarrow> string \<Rightarrow> string \<Rightarrow> analyzer \<times> world
     \<Rightarrow> ((error + details list) \<times> analyzer \<times> world) option" where
  "analyze_repository srv owner repo s =
     Option.bind
       (get_repository_contributors srv owner repo (fst s, emit (Print (Analyzing owner repo)) (snd s)))
       (\<lambda>(v, s1).
          case v of
            Inl e \<Rightarrow> Some (Inl e, s1)
          | Inr contributors \<Rightarrow>
              Option.bind
                (process_contributors srv owner repo (length contributors) 0 contributors []
                   (fst s1, emit (Print (Found (length contributors))) (snd s1)))
                (\<lambda>(v2, s2).
                   case v2 of
                     Inl e \<Rightarrow> Some (Inl e, s2)
                   | Inr contributor_details \<Rightarrow> Some (sorted_contributors contributor_details, s2)))"

section \<open>The script\<close>

text \<open>
  Lines 267 to 274, for any reference in place of \<open>REPO_URL\<close>: the reference is parsed,
  the analyzer is made, the repository is analyzed. An exception ends the script where
  it is raised. The printing of the report and the CSV file that follow are not part of
  the model.
\<close>

definition script ::
  "server \<Rightarrow> string \<Rightarrow> string option \<Rightarrow> world \<Rightarrow> ((error + details list) \<times> world) option" where
  "script srv repo_url token w =
     (case extract_repo_info repo_url of
        Inl e \<Rightarrow> Some (Inl e, w)
      | Inr (repo_owner, repo_name) \<Rightarrow>
          map_option (\<lambda>(v, a, w1). (v, w1))
            (analyze_repository srv repo_owner repo_name (init token, w)))"

section \<open>Repository references\<close>

text \<open>
  The characters of an owner or repository name on GitHub, and a reference's path:
  owner, name, and what may follow them (nothing, or further segments, each after a
  slash).
\<close>

definition name_char :: "char \<Rightarrow> bool" where
  "name_char c \<longleftrightarrow>
     c \<in> set ''abcdefghijklmnopqrstuvwxyzABCDEFGHIJKLMNOPQRSTUVWXYZ0123456789-_.''"

definition valid_name :: "string \<Rightarrow> bool" where
  "valid_name s \<longleftrightarrow> s \<noteq> [] \<and> list_all name_char s"

definition path_tail :: "string \<Rightarrow> bool" where
  "path_tail rest \<longleftrightarrow>
     (case rest of [] \<Rightarrow> True | c # _ \<Rightarrow> c = CHR ''/'') \<and>
     list_all (\<lambda>c. name_char c \<or> c = CHR ''/'') rest"

definition repo_path :: "string \<Rightarrow> string \<Rightarrow> string \<Rightarrow> string" where
  "repo_path owner repo rest = owner @ ''/'' @ repo @ rest"

section \<open>Timestamps\<close>

text \<open>
  The commit dates of the GitHub API are ISO-8601 timestamps in UTC,
  \<open>YYYY-MM-DDTHH:MM:SSZ\<close>. In the pattern \<open>d\<close> stands for a digit.
\<close>

definition is_digit :: "char \<Rightarrow> bool" where
  "is_digit c \<longleftrightarrow> c \<in> set ''0123456789''"

definition iso_timestamp :: "string \<Rightarrow> bool" where
  "iso_timestamp s \<longleftrightarrow>
     list_all2 (\<lambda>p c. if p = CHR ''d'' then is_digit c else c = p) ''dddd-dd-ddTdd:dd:ddZ'' s"

text \<open>A record whose \<open>latest_commit_date\<close> is null or such a timestamp.\<close>

definition dated_or_null :: "details \<Rightarrow> bool" where
  "dated_or_null x \<longleftrightarrow>
     (case latest_commit_date x of JNull \<Rightarrow> True | JStr s \<Rightarrow> iso_timestamp s | _ \<Rightarrow> False)"

text \<open>A record with a given login and date, the other fields empty.\<close>

definition row :: "string \<Rightarrow> json \<Rightarrow> details" where
  "row login date =
     \<lparr>username = JStr login, name = JStr '''', email = JStr '''', bio = JStr '''',
      company = JStr '''', location = JStr '''', avatar_url = JStr '''', profile_url = JStr '''',
      contributions = JNum 1, latest_commit_date = date, social_links = []\<rparr>"

section \<open>Example data\<close>

text \<open>The profile of the social-link example, and a contributor of the list endpoint.\<close>

definition example_profile :: "(string \<times> json) list" where
  "example_profile =
     [(''blog'', JStr ''https://twitter.com/foo''),
      (''html_url'', JStr ''https://github.com/foo''),
      (''twitter_username'', JStr ''foo2'')]"

definition example_contributor :: json where
  "example_contributor =
     JObj [(''login'', JStr ''octocat''),
           (''avatar_url'', JStr ''https://avatars.githubusercontent.com/u/1''),
           (''contributions'', JNum 3)]"

text \<open>The profile keys that the record copies, each with the field it goes to.\<close>

definition profile_fields :: "(string \<times> (details \<Rightarrow> json)) list" where
  "profile_fields =
     [(''name'', name), (''email'', email), (''bio'', bio), (''company'', company),
      (''location'', location), (''html_url'', profile_url)]"

text \<open>The four rows of the sorting example, in input order.\<close>

definition example_rows :: "details list" where
  "example_rows =
     [row ''first'' (JStr ''2024-01-01T00:00:00Z''), row ''second'' JNull,
      row ''third'' (JStr ''2024-03-01T00:00:00Z''), row ''fourth'' JNull]"

section \<open>Servers and platforms\<close>

text \<open>The world after the pre-check has blocked for \<open>secs\<close> seconds.\<close>

definition blocked :: "real \<Rightarrow> world \<Rightarrow> world" where
  "blocked secs w =
     w\<lparr>clock := clock w + secs,
       trace := trace w @ [Print (Rate_limit_reached secs), Sleep secs]\<rparr>"

text \<open>
  The pre-check lets a request go at once when the remaining quota is unknown or more
  than 1, or when the reset time has passed: both times convert, and the sleep time
  that comes out is not positive. A server is quiet in a world when the rate limit of
  each of its answers lets the next request go at once there; a server that sends no
  rate-limit headers (remaining and reset are then 0) is quiet where the platform
  converts the epoch and the clock and the clock is past the first seconds of 1970.
\<close>

definition passed :: "world \<Rightarrow> int \<Rightarrow> bool" where
  "passed w reset \<longleftrightarrow>
     (case seconds_to_reset w reset of Inl e \<Rightarrow> False | Inr sleep_time \<Rightarrow> sleep_time \<le> 0)"

definition unhindered :: "analyzer \<Rightarrow> world \<Rightarrow> bool" where
  "unhindered a w \<longleftrightarrow>
     (case rate_limit_remaining a of
        None \<Rightarrow> True
      | Some remaining \<Rightarrow>
          remaining > 1 \<or>
          (case rate_limit_reset a of None \<Rightarrow> False | Some reset \<Rightarrow> passed w reset))"

definition quiet :: "server \<Rightarrow> world \<Rightarrow> bool" where
  "quiet srv w0 \<longleftrightarrow> (\<forall>w req a. unhindered (update_rate_limit (srv w req) a) w0)"

text \<open>
  A list endpoint: every request is answered with status 200 and the page that its
  \<open>page\<close> parameter asks for. A page is full when it is a list of 100 items or more.
\<close>

definition page_number :: "request \<Rightarrow> int" where
  "page_number req =
     (case params req of
        None \<Rightarrow> 0
      | Some ps \<Rightarrow> (case map_of ps ''page'' of Some (JNum p) \<Rightarrow> p | _ \<Rightarrow> 0))"

definition list_endpoint :: "(int \<Rightarrow> json) \<Rightarrow> server \<Rightarrow> bool" where
  "list_endpoint pages srv \<longleftrightarrow>
     (\<forall>w req. status_code (srv w req) = 200 \<and> body (srv w req) = Some (pages (page_number req)))"

definition full_page :: "json \<Rightarrow> bool" where
  "full_page j \<longleftrightarrow> is_list j \<and> length (items_of j) \<ge> 100"

definition page_request :: "analyzer \<Rightarrow> string \<Rightarrow> int \<Rightarrow> request" where
  "page_request a u page = \<lparr>url = u, req_headers = headers a, params = Some (page_params page)\<rparr>"

text \<open>
  A fake list endpoint for given pages, which sends no rate-limit headers, the three
  pages of the pagination example (100, 100 and 37 items, each item naming its page),
  and a server that answers every request with status 403 and an HTML body.
\<close>

definition fake_endpoint :: "(int \<Rightarrow> json) \<Rightarrow> server" where
  "fake_endpoint pages w req =
     \<lparr>status_code = 200, x_ratelimit_remaining = None, x_ratelimit_reset = None,
      body = Some (pages (page_number req)), text_of = ''''\<rparr>"

definition three_pages :: "int \<Rightarrow> json" where
  "three_pages p =
     JArr (replicate (if p = 1 \<or> p = 2 then 100 else if p = 3 then 37 else 0)
             (JObj [(''page'', JNum p)]))"

definition html_forbidden :: server where
  "html_forbidden w req =
     \<lparr>status_code = 403, x_ratelimit_remaining = None, x_ratelimit_reset = None,
      body = None, text_of = ''<html>403 Forbidden</html>''\<rparr>"

text \<open>
  Two platforms, as CPython 3.11 has them on 64-bit Linux. With \<open>TZ=UTC\<close> the local
  time is the time since the epoch, from the second day of year 1 to the end of year
  9999; outside, the conversion raises (the message of the \<open>ValueError\<close> names the year,
  which is left out here). With \<open>TZ=America/New_York\<close> the clocks go back by one hour on
  1 November 2026 at 06:00 UTC (1793512800): from 8 March 2026 until then the offset
  is 4 hours, from then until 14 March 2027 it is 5 hours; other times are not needed
  and not modelled. \<open>time.sleep\<close> raises \<open>OverflowError\<close> from \<open>2 ^ 63\<close> nanoseconds on and
  \<open>OSError\<close> from 9223372036 seconds on (a little earlier on a machine that has been up
  for long, which is left out here).
\<close>

definition utc :: "real \<Rightarrow> error + real" where
  "utc t =
     (if t < - (2 ^ 63) \<or> t \<ge> 2 ^ 63 then Inl OverflowError
      else if t < - 67768040609740800 \<or> t \<ge> 67768036191676800 then Inl OSError
      else if t < - 62135510400 \<or> t \<ge> 253402300800 then Inl (ValueError ''year is out of range'')
      else Inr t)"

definition new_york :: "real \<Rightarrow> error + real" where
  "new_york t =
     (if 1772953200 \<le> t \<and> t < 1793512800 then Inr (t - 14400)
      else if 1793512800 \<le> t \<and> t < 1805007600 then Inr (t - 18000)
      else Inl NotModelled)"

definition linux_sleep :: "real \<Rightarrow> error option" where
  "linux_sleep secs =
     (if secs * 10 ^ 9 \<ge> 2 ^ 63 then Some OverflowError
      else if secs \<ge> 9223372036 then Some OSError
      else None)"

text \<open>
  A world on 14 November 2023 under UTC, and a world five seconds before the clocks of
  New York go back, at 01:59:55 local time.
\<close>

definition start :: world where
  "start = \<lparr>clock = 1700000000, local_time = utc, too_long = linux_sleep, trace = []\<rparr>"

definition before_change :: world where
  "before_change =
     \<lparr>clock = 1793512795, local_time = new_york, too_long = linux_sleep, trace = []\<rparr>"

text \<open>
  An analyzer that has seen a remaining quota of 1, to be reset ten seconds after the
  clock of \<open>before_change\<close>.
\<close>

definition throttled :: analyzer where
  "throttled =
     (init None)\<lparr>rate_limit_remaining := Some 1, rate_limit_reset := Some 1793512805\<rparr>"

section \<open>Properties of the string functions\<close>

lemma prefix_set_mono: "prefix p s \<Longrightarrow> set p \<subseteq> set s"
  by (auto simp: prefix_def)

lemma py_replace_absent:
  "c \<in> set old \<Longrightarrow> c \<notin> set s \<Longrightarrow> py_replace old new s = s"
proof (induction s)
  case Nil
  then show ?case by simp
next
  case (Cons x xs)
  have "\<not> prefix old (x # xs)"
    using Cons.prems prefix_set_mono by blast
  with Cons show ?case by simp
qed

lemma py_replace_at_front:
  "old \<noteq> [] \<Longrightarrow> py_replace old new (old @ s) = new @ py_replace old new s"
  by (cases old) simp_all

lemma py_split_no_sep: "c \<notin> set s \<Longrightarrow> py_split [c] s = [s]"
  by (induction s) auto

lemma py_split_first:
  "c \<notin> set a \<Longrightarrow> py_split [c] (a @ c # rest) = a # py_split [c] rest"
  by (induction a) auto

lemma py_split_nonempty: "py_split sep s \<noteq> []"
  by (induction sep s rule: py_split.induct) (auto split: list.splits)

lemma py_strip_id:
  assumes "s \<noteq> []" "\<not> is_space (hd s)" "\<not> is_space (last s)"
  shows "py_strip s = s"
proof -
  from assms have "dropWhile is_space s = s"
    by (cases s) auto
  moreover from assms have "dropWhile is_space (rev s) = rev s"
    by (cases "rev s") (auto simp: last_rev[symmetric] hd_rev)
  ultimately show ?thesis by (simp add: py_strip_def)
qed

lemma endswith_single: "endswith s [c] \<longleftrightarrow> s \<noteq> [] \<and> last s = c"
  by (cases s rule: rev_cases) (auto simp: endswith_def)

lemma name_char_not_space: "name_char c \<Longrightarrow> \<not> is_space c"
  by (auto simp: name_char_def is_space_def)

lemma name_char_not_slash: "name_char c \<Longrightarrow> c \<noteq> CHR ''/''"
  by (auto simp: name_char_def)

lemma name_char_not_colon: "name_char c \<Longrightarrow> c \<noteq> CHR '':''"
  by (auto simp: name_char_def)

lemma path_tail_butlast: "path_tail rest \<Longrightarrow> path_tail (butlast rest)"
proof -
  assume h: "path_tail rest"
  have "list_all (\<lambda>c. name_char c \<or> c = CHR ''/'') (butlast rest)"
    using h by (auto simp: path_tail_def list_all_iff dest: in_set_butlastD)
  moreover have "case butlast rest of [] \<Rightarrow> True | c # _ \<Rightarrow> c = CHR ''/''"
    using h by (cases rest) (auto simp: path_tail_def split: list.splits if_splits)
  ultimately show ?thesis by (simp add: path_tail_def)
qed

lemma repo_path_no_colon:
  "valid_name owner \<Longrightarrow> valid_name repo \<Longrightarrow> path_tail rest \<Longrightarrow>
   CHR '':'' \<notin> set (repo_path owner repo rest)"
  by (auto simp: repo_path_def valid_name_def path_tail_def list_all_iff
           dest: name_char_not_colon)

lemma split_repo_path:
  assumes "valid_name owner" "valid_name repo" "path_tail rest"
  shows "\<exists>others. py_split ''/'' (repo_path owner repo rest) = owner # repo # others"
proof -
  have o: "CHR ''/'' \<notin> set owner" and n: "CHR ''/'' \<notin> set repo"
    using assms by (auto simp: valid_name_def list_all_iff dest: name_char_not_slash)
  have 1: "py_split ''/'' (repo_path owner repo rest) = owner # py_split ''/'' (repo @ rest)"
    using py_split_first [OF o] by (simp add: repo_path_def)
  show ?thesis
  proof (cases rest)
    case Nil
    with 1 n show ?thesis by (simp add: py_split_no_sep)
  next
    case (Cons c r)
    with assms(3) have "c = CHR ''/''" by (simp add: path_tail_def)
    with Cons 1 py_split_first [OF n, of r] show ?thesis by simp
  qed
qed

lemma url_parts_https:
  assumes "valid_name owner" "valid_name repo" "path_tail rest"
  shows "url_parts (''https://github.com/'' @ repo_path owner repo rest) =
         py_split ''/'' (repo_path owner repo rest)"
proof -
  have "py_replace ''https://github.com/'' '''' (''https://github.com/'' @ repo_path owner repo rest)
        = py_replace ''https://github.com/'' '''' (repo_path owner repo rest)"
    using py_replace_at_front [of "''https://github.com/''" "''''"] by simp
  also have "\<dots> = repo_path owner repo rest"
    by (rule py_replace_absent [of "CHR '':''"]) (simp_all add: repo_path_no_colon [OF assms])
  finally show ?thesis by (simp add: url_parts_def startswith_def)
qed

lemma url_parts_ssh:
  assumes "valid_name owner" "valid_name repo" "path_tail rest"
  shows "url_parts (''git@github.com:'' @ repo_path owner repo rest) =
         py_split ''/'' (repo_path owner repo rest)"
proof -
  have "py_replace ''git@github.com:'' '''' (''git@github.com:'' @ repo_path owner repo rest)
        = py_replace ''git@github.com:'' '''' (repo_path owner repo rest)"
    using py_replace_at_front [of "''git@github.com:''" "''''"] by simp
  also have "\<dots> = repo_path owner repo rest"
    by (rule py_replace_absent [of "CHR '':''"]) (simp_all add: repo_path_no_colon [OF assms])
  finally show ?thesis by (simp add: url_parts_def startswith_def)
qed

lemma url_parts_short:
  assumes "valid_name owner" "valid_name repo" "path_tail rest"
  shows "url_parts (repo_path owner repo rest) = py_split ''/'' (repo_path owner repo rest)"
proof -
  have "\<not> prefix ''https://'' (repo_path owner repo rest)"
    using repo_path_no_colon [OF assms] prefix_set_mono by fastforce
  moreover have "\<not> prefix ''git@github.com:'' (repo_path owner repo rest)"
    using repo_path_no_colon [OF assms] prefix_set_mono by fastforce
  ultimately show ?thesis by (simp add: url_parts_def startswith_def)
qed

lemma clean_url_repo_path:
  assumes "valid_name owner" "valid_name repo" "path_tail rest"
    and "pre = [] \<or> \<not> is_space (hd pre)"
  shows "\<exists>rest'. path_tail rest' \<and>
           clean_url (pre @ repo_path owner repo rest) = pre @ repo_path owner repo rest'"
proof -
  let ?s = "pre @ repo_path owner repo rest"
  have ne: "?s \<noteq> []" by (simp add: repo_path_def)
  have "hd ?s = (if pre = [] then hd owner else hd pre)"
    using assms(1) by (auto simp: repo_path_def valid_name_def)
  then have h: "\<not> is_space (hd ?s)"
    using assms(1,4) by (cases owner) (auto simp: valid_name_def dest: name_char_not_space)
  have l: "last ?s = (if rest = [] then last repo else last rest)"
    using assms(2) by (auto simp: repo_path_def valid_name_def)
  have ln: "name_char (last repo)"
    using assms(2) by (auto simp: valid_name_def list_all_iff)
  have lr: "rest \<noteq> [] \<Longrightarrow> name_char (last rest) \<or> last rest = CHR ''/''"
    using assms(3) last_in_set [of rest] by (auto simp: path_tail_def list_all_iff)
  have slash: "\<not> is_space (CHR ''/'')"
    by (simp add: is_space_def)
  have sp: "\<not> is_space (last ?s)"
  proof (cases "rest = []")
    case True
    with l ln show ?thesis by (simp add: name_char_not_space)
  next
    case False
    with l lr slash show ?thesis by (auto simp: name_char_not_space)
  qed
  have strip: "py_strip ?s = ?s"
    by (rule py_strip_id [OF ne h sp])
  have e: "endswith ?s ''/'' \<longleftrightarrow> last ?s = CHR ''/''"
    using ne by (simp add: endswith_single)
  show ?thesis
  proof (cases "endswith ?s ''/''")
    case False
    with strip assms(3) show ?thesis by (auto simp: clean_url_def)
  next
    case True
    with e l ln have r: "rest \<noteq> []"
      by (auto dest: name_char_not_slash)
    then have "butlast ?s = pre @ repo_path owner repo (butlast rest)"
      by (simp add: repo_path_def butlast_append)
    with True strip path_tail_butlast [OF assms(3)] show ?thesis
      by (auto simp: clean_url_def)
  qed
qed

lemma extract_repo_path:
  assumes "valid_name owner" "valid_name repo" "path_tail rest"
    and "pre = ''https://github.com/'' \<or> pre = ''git@github.com:'' \<or> pre = []"
  shows "extract_repo_info (pre @ repo_path owner repo rest) = Inr (owner, repo)"
proof -
  from assms(4) have "pre = [] \<or> \<not> is_space (hd pre)"
    by (auto simp: is_space_def)
  from clean_url_repo_path [OF assms(1-3) this] obtain rest' where
    t: "path_tail rest'" and
    c: "clean_url (pre @ repo_path owner repo rest) = pre @ repo_path owner repo rest'"
    by blast
  from assms(4) have "url_parts (pre @ repo_path owner repo rest') =
      py_split ''/'' (repo_path owner repo rest')"
    using url_parts_https [OF assms(1,2) t] url_parts_ssh [OF assms(1,2) t]
      url_parts_short [OF assms(1,2) t] by auto
  moreover obtain others where "py_split ''/'' (repo_path owner repo rest') = owner # repo # others"
    using split_repo_path [OF assms(1,2) t] by blast
  ultimately show ?thesis
    by (simp add: extract_repo_info_def c)
qed

lemma path_tail_slash: "path_tail rest \<Longrightarrow> path_tail (rest @ ''/'')"
  by (cases rest) (auto simp: path_tail_def)

section \<open>The reference formats (C3)\<close>

text \<open>
  C3. Every supported format of a reference to the repository \<open>owner/repo\<close> gives the
  pair \<open>(owner, repo)\<close>: the HTTPS URL, the HTTPS URL with a trailing slash, the SSH
  form and the short form. Path segments after the first two (\<open>rest\<close>) are ignored.
  Owner and repository name are non-empty and made of letters, digits, \<open>-\<close>, \<open>_\<close>
  and \<open>.\<close>, as GitHub has them.
\<close>

theorem extract_repo_info_formats:
  assumes "valid_name owner" "valid_name repo" "path_tail rest"
  shows "extract_repo_info (''https://github.com/'' @ owner @ ''/'' @ repo @ rest) = Inr (owner, repo)
       \<and> extract_repo_info (''https://github.com/'' @ owner @ ''/'' @ repo @ rest @ ''/'') = Inr (owner, repo)
       \<and> extract_repo_info (''git@github.com:'' @ owner @ ''/'' @ repo @ rest) = Inr (owner, repo)
       \<and> extract_repo_info (owner @ ''/'' @ repo @ rest) = Inr (owner, repo)"
proof -
  have s: "path_tail (rest @ ''/'')"
    by (rule path_tail_slash [OF assms(3)])
  show ?thesis
    using extract_repo_path [OF assms, of "''https://github.com/''"]
      extract_repo_path [OF assms(1,2) s, of "''https://github.com/''"]
      extract_repo_path [OF assms, of "''git@github.com:''"]
      extract_repo_path [OF assms, of "[]"]
    by (simp add: repo_path_def)
qed

theorem extract_repo_info_formats_witness:
  "valid_name ''acme'' \<and> valid_name ''widgets'' \<and> path_tail [] \<and>
   extract_repo_info ''https://github.com/acme/widgets'' = Inr (''acme'', ''widgets'') \<and>
   extract_repo_info ''https://github.com/acme/widgets/'' = Inr (''acme'', ''widgets'') \<and>
   extract_repo_info ''git@github.com:acme/widgets'' = Inr (''acme'', ''widgets'') \<and>
   extract_repo_info ''acme/widgets'' = Inr (''acme'', ''widgets'')"
proof -
  have a: "valid_name ''acme''" and w: "valid_name ''widgets''" and t: "path_tail []"
    by (simp_all add: valid_name_def name_char_def path_tail_def)
  from extract_repo_info_formats [OF a w t] a w t show ?thesis by simp
qed

lemma rstrip_append:
  assumes "a \<noteq> []" "\<not> is_space (last a)"
  shows "rev (dropWhile is_space (rev (a @ b))) = a @ rev (dropWhile is_space (rev b))"
proof -
  have "dropWhile is_space (rev a) = rev a"
    using assms by (cases a rule: rev_cases) auto
  then show ?thesis
    by (auto simp: dropWhile_append)
qed

lemma rstrip_prefix: "prefix (rev (dropWhile is_space (rev b))) b"
proof -
  have "suffix (dropWhile is_space (rev b)) (rev b)"
    by (rule suffix_dropWhile)
  then show ?thesis
    by (metis rev_rev_ident suffix_to_prefix)
qed

lemma replace_keeps_scheme:
  "\<not> prefix ''github.com/'' b \<Longrightarrow>
   py_replace ''https://github.com/'' '''' (''https://'' @ b) =
   ''https://'' @ py_replace ''https://github.com/'' '''' b"
  by simp

lemma split_scheme: "\<exists>others. py_split ''/'' (''https://'' @ x) = ''https:'' # [] # others"
  by simp

section \<open>An HTTPS URL of another host (C10)\<close>

text \<open>
  C10. A reference that starts with \<open>https://\<close> but not with \<open>https://github.com/\<close>
  does not fail: nothing is removed from its front, the split at the slashes starts
  with \<open>https:\<close> and the empty string, and these two are returned as owner and name.
\<close>

theorem extract_repo_info_other_host:
  assumes "startswith s ''https://''" and "\<not> startswith s ''https://github.com/''"
  shows "extract_repo_info s = Inr (''https:'', '''')"
proof -
  from assms(1) obtain b where s: "s = ''https://'' @ b"
    by (auto simp: startswith_def prefix_def)
  with assms(2) have nb: "\<not> prefix ''github.com/'' b"
    by (simp add: startswith_def)
  define b' where "b' = rev (dropWhile is_space (rev b))"
  have pb: "prefix b' b"
    unfolding b'_def by (rule rstrip_prefix)
  have "dropWhile is_space s = s"
    by (simp add: s is_space_def)
  moreover have "rev (dropWhile is_space (rev s)) = ''https://'' @ b'"
    unfolding s b'_def by (rule rstrip_append) (simp_all add: is_space_def)
  ultimately have u: "py_strip s = ''https://'' @ b'"
    by (simp add: py_strip_def)
  show ?thesis
  proof (cases "b' = []")
    case True
    with u have "clean_url s = ''https:/''"
      by (simp add: clean_url_def endswith_def)
    then show ?thesis
      by (simp add: extract_repo_info_def url_parts_def startswith_def)
  next
    case False
    define b'' where "b'' = (if last b' = CHR ''/'' then butlast b' else b')"
    have "prefix (butlast b') b'"
      by (metis append_butlast_last_id butlast.simps(1) prefixI prefix_order.refl)
    then have "prefix b'' b'"
      by (simp add: b''_def)
    with pb have "prefix b'' b"
      by (rule prefix_order.trans [rotated])
    with nb have nb'': "\<not> prefix ''github.com/'' b''"
      using prefix_order.trans by blast
    from False u have c: "clean_url s = ''https://'' @ b''"
      by (simp add: clean_url_def endswith_single b''_def butlast_append)
    obtain others where
      "py_split ''/'' (''https://'' @ py_replace ''https://github.com/'' '''' b'') =
       ''https:'' # [] # others"
      using split_scheme by blast
    with c nb'' show ?thesis
      by (simp add: extract_repo_info_def url_parts_def startswith_def
               replace_keeps_scheme del: py_replace.simps py_split.simps append.simps)
  qed
qed

theorem extract_repo_info_other_host_witness:
  "startswith ''https://example.com/acme/widgets'' ''https://'' \<and>
   \<not> startswith ''https://example.com/acme/widgets'' ''https://github.com/'' \<and>
   extract_repo_info ''https://example.com/acme/widgets'' = Inr (''https:'', '''')"
proof -
  have 1: "startswith ''https://example.com/acme/widgets'' ''https://''"
    and 2: "\<not> startswith ''https://example.com/acme/widgets'' ''https://github.com/''"
    by (simp_all add: startswith_def)
  from extract_repo_info_other_host [OF 1 2] 1 2 show ?thesis by simp
qed

section \<open>Social links (C1)\<close>

lemma blog_links_returns:
  "\<not> truthy blog \<or> is_str blog \<Longrightarrow> \<exists>links. blog_links blog = Inr links"
  by (cases blog) (auto simp: blog_links_def)

lemma social_links_example:
  "get_user_social_links (JObj example_profile) =
     Inr [(''Twitter'', JStr ''https://twitter.com/foo2''), (''GitHub'', JStr ''https://github.com/foo'')]"
  by (simp add: example_profile_def get_user_social_links_def blog_links_def get_or_def
        startswith_def blog_platform_def blog_domain_def py_lower_def lower_char_def)

lemma social_links_general:
  assumes "\<not> truthy (get_or kvs ''blog'' JNull) \<or> is_str (get_or kvs ''blog'' JNull)"
  shows "\<exists>links. get_user_social_links (JObj kvs) = Inr links \<and>
           (truthy (get_or kvs ''twitter_username'' JNull) \<longrightarrow>
              map_of links ''Twitter'' =
                Some (JStr (''https://twitter.com/'' @ py_str (get_or kvs ''twitter_username'' JNull)))) \<and>
           (truthy (get_or kvs ''html_url'' JNull) \<longrightarrow>
              map_of links ''GitHub'' = Some (get_or kvs ''html_url'' JNull))"
proof -
  from blog_links_returns [OF assms] obtain l0 where "blog_links (get_or kvs ''blog'' JNull) = Inr l0"
    by blast
  then show ?thesis
    by (simp add: get_user_social_links_def Let_def update_conv')
qed

text \<open>
  C1. The example profile (blog \<open>https://twitter.com/foo\<close>, html_url
  \<open>https://github.com/foo\<close>, twitter_username \<open>foo2\<close>) gives exactly the Twitter link
  \<open>https://twitter.com/foo2\<close> and the GitHub link \<open>https://github.com/foo\<close>. In general,
  for every profile whose blog is absent, empty or a string, the function returns
  links in which, when twitter_username is present, the Twitter entry is the URL made
  from it, whatever the blog gave, and, when html_url is present, the GitHub entry is
  html_url.
\<close>

theorem social_links_precedence:
  "get_user_social_links (JObj example_profile) =
     Inr [(''Twitter'', JStr ''https://twitter.com/foo2''), (''GitHub'', JStr ''https://github.com/foo'')]
   \<and> (\<forall>kvs. \<not> truthy (get_or kvs ''blog'' JNull) \<or> is_str (get_or kvs ''blog'' JNull) \<longrightarrow>
         (\<exists>links. get_user_social_links (JObj kvs) = Inr links \<and>
           (truthy (get_or kvs ''twitter_username'' JNull) \<longrightarrow>
              map_of links ''Twitter'' =
                Some (JStr (''https://twitter.com/'' @ py_str (get_or kvs ''twitter_username'' JNull)))) \<and>
           (truthy (get_or kvs ''html_url'' JNull) \<longrightarrow>
              map_of links ''GitHub'' = Some (get_or kvs ''html_url'' JNull))))"
  using social_links_example social_links_general by blast

theorem social_links_precedence_witness:
  "is_str (get_or example_profile ''blog'' JNull) \<and>
   truthy (get_or example_profile ''twitter_username'' JNull) \<and>
   truthy (get_or example_profile ''html_url'' JNull) \<and>
   get_user_social_links (JObj example_profile) =
     Inr [(''Twitter'', JStr ''https://twitter.com/foo2''), (''GitHub'', JStr ''https://github.com/foo'')] \<and>
   map_of [(''Twitter'', JStr ''https://twitter.com/foo2''), (''GitHub'', JStr ''https://github.com/foo'')]
     ''Twitter'' = Some (JStr (''https://twitter.com/'' @ py_str (JStr ''foo2''))) \<and>
   map_of [(''Twitter'', JStr ''https://twitter.com/foo2''), (''GitHub'', JStr ''https://github.com/foo'')]
     ''GitHub'' = Some (JStr ''https://github.com/foo'')"
proof -
  have b: "is_str (get_or example_profile ''blog'' JNull)"
    by (simp add: example_profile_def get_or_def)
  from social_links_precedence [THEN conjunct2, rule_format, of example_profile] b
  show ?thesis
    using social_links_precedence [THEN conjunct1]
    by (simp add: example_profile_def get_or_def)
qed

section \<open>Profile fields (C4)\<close>

lemma get_or_absent: "key \<notin> fst ` set kvs \<Longrightarrow> get_or kvs key dflt = dflt"
proof -
  assume "key \<notin> fst ` set kvs"
  then have "map_of kvs key = None"
    by (simp add: map_of_eq_None_iff)
  then show ?thesis
    by (simp add: get_or_def)
qed

lemma get_or_present: "map_of kvs key = Some v \<Longrightarrow> get_or kvs key dflt = v"
  by (simp add: get_or_def)

lemma no_commits_no_date:
  "\<not> truthy recent_commits \<or> \<not> is_list recent_commits \<Longrightarrow>
   latest_commit_date_of recent_commits = Inr JNull"
  by (auto simp: latest_commit_date_of_def)

text \<open>
  C4, as stated, fails: GitHub sends \<open>"name": null\<close> for a user without a name, the key
  is there, \<open>get\<close> returns its value, and the field of the record is null, not the empty
  string.
\<close>

theorem profile_null_counterexample:
  "contributor_record (JStr ''octocat'') example_contributor
     (JObj [(''name'', JNull), (''html_url'', JStr ''https://github.com/octocat'')]) (JArr []) =
   Inr \<lparr>username = JStr ''octocat'', name = JNull, email = JStr '''', bio = JStr '''',
        company = JStr '''', location = JStr '''',
        avatar_url = JStr ''https://avatars.githubusercontent.com/u/1'',
        profile_url = JStr ''https://github.com/octocat'', contributions = JNum 3,
        latest_commit_date = JNull,
        social_links = [(''GitHub'', JStr ''https://github.com/octocat'')]\<rparr>"
  by (simp add: contributor_record_def example_contributor_def latest_commit_date_of_def
        get_user_social_links_def blog_links_def get_or_def)

text \<open>
  C4, amended. In every record, each of name, email, bio, company, location and
  profile_url is the empty string when the profile has no such key, and is the
  profile's value, unchanged, when it has one (null included); latest_commit_date is
  null when there are no commits.
\<close>

theorem profile_fields_default:
  assumes "contributor_record uname contributor (JObj profile) recent_commits = Inr d"
  shows "(\<forall>(key, field) \<in> set profile_fields.
            (key \<notin> fst ` set profile \<longrightarrow> field d = JStr '''') \<and>
            (\<forall>v. map_of profile key = Some v \<longrightarrow> field d = v)) \<and>
         (\<not> truthy recent_commits \<or> \<not> is_list recent_commits \<longrightarrow> latest_commit_date d = JNull)"
proof -
  from assms obtain date links avatar contribs where
    dt: "latest_commit_date_of recent_commits = Inr date" and
    d: "d = \<lparr>username = uname,
             name = get_or profile ''name'' (JStr ''''),
             email = get_or profile ''email'' (JStr ''''),
             bio = get_or profile ''bio'' (JStr ''''),
             company = get_or profile ''company'' (JStr ''''),
             location = get_or profile ''location'' (JStr ''''),
             avatar_url = avatar,
             profile_url = get_or profile ''html_url'' (JStr ''''),
             contributions = contribs,
             latest_commit_date = date,
             social_links = links\<rparr>"
    by (auto simp: contributor_record_def split: sum.splits)
  have "\<not> truthy recent_commits \<or> \<not> is_list recent_commits \<longrightarrow> latest_commit_date d = JNull"
    using dt d no_commits_no_date [of recent_commits] by auto
  moreover have "\<forall>(key, field) \<in> set profile_fields.
            (key \<notin> fst ` set profile \<longrightarrow> field d = JStr '''') \<and>
            (\<forall>v. map_of profile key = Some v \<longrightarrow> field d = v)"
    by (simp add: profile_fields_def d get_or_absent get_or_present)
  ultimately show ?thesis by blast
qed

theorem profile_fields_default_witness:
  "contributor_record (JStr ''octocat'') example_contributor
     (JObj [(''name'', JStr ''The Octocat''), (''email'', JNull)]) (JObj []) =
     Inr \<lparr>username = JStr ''octocat'', name = JStr ''The Octocat'', email = JNull, bio = JStr '''',
        company = JStr '''', location = JStr '''',
        avatar_url = JStr ''https://avatars.githubusercontent.com/u/1'',
        profile_url = JStr '''', contributions = JNum 3,
        latest_commit_date = JNull, social_links = []\<rparr>"
proof -
  have r: "contributor_record (JStr ''octocat'') example_contributor
     (JObj [(''name'', JStr ''The Octocat''), (''email'', JNull)]) (JObj []) =
     Inr \<lparr>username = JStr ''octocat'', name = JStr ''The Octocat'', email = JNull, bio = JStr '''',
        company = JStr '''', location = JStr '''',
        avatar_url = JStr ''https://avatars.githubusercontent.com/u/1'',
        profile_url = JStr '''', contributions = JNum 3,
        latest_commit_date = JNull, social_links = []\<rparr>"
    by (simp add: contributor_record_def example_contributor_def latest_commit_date_of_def
        get_user_social_links_def blog_links_def get_or_def)
  from profile_fields_default [OF r] r show ?thesis by simp
qed

section \<open>The commit payload (C7)\<close>

text \<open>
  What the code does tolerate: a result that is empty or no list, a first element that
  is no \<open>dict\<close> or has no \<open>commit\<close> key. And with the three nested fields there, the
  date is the author date of the first commit.
\<close>

lemma latest_commit_date_tolerated:
  "\<not> truthy recent_commits \<or> \<not> is_list recent_commits \<or>
   \<not> is_dict (hd (items_of recent_commits)) \<or>
   py_in ''commit'' (hd (items_of recent_commits)) = Inr False \<Longrightarrow>
   latest_commit_date_of recent_commits = Inr JNull"
  by (cases recent_commits) (auto simp: latest_commit_date_of_def split: list.splits)

lemma latest_commit_date_present:
  assumes "map_of first ''commit'' = Some (JObj commit_info)"
    and "map_of commit_info ''author'' = Some (JObj author)"
    and "map_of author ''date'' = Some date"
  shows "latest_commit_date_of (JArr (JObj first # others)) = Inr date"
proof -
  from assms(1) have 1: "''commit'' \<in> fst ` set first"
    by (metis domI dom_map_of_conv_image_fst)
  from assms(2) have 2: "''author'' \<in> fst ` set commit_info"
    by (metis domI dom_map_of_conv_image_fst)
  from assms(3) have 3: "''date'' \<in> fst ` set author"
    by (metis domI dom_map_of_conv_image_fst)
  show ?thesis
    using assms 1 2 3 by (simp add: latest_commit_date_of_def author_date_def)
qed

text \<open>
  C7. A commit entry whose \<open>commit\<close> field is null is a malformed payload, and the claim
  wants a null date for it. The code tests \<open>"author" in commit_info\<close> without testing
  that \<open>commit_info\<close> is a \<open>dict\<close>, as it does for the list and for its first element:
  \<open>in\<close> raises \<open>TypeError\<close>, and so does the step that builds the record.
\<close>

theorem malformed_commit_raises:
  "latest_commit_date_of (JArr [JObj [(''sha'', JStr ''abc''), (''commit'', JNull)]]) = Inl TypeError
   \<and> contributor_record (JStr ''octocat'') example_contributor (JObj [])
        (JArr [JObj [(''sha'', JStr ''abc''), (''commit'', JNull)]]) = Inl TypeError"
  by (simp add: latest_commit_date_of_def author_date_def contributor_record_def)

section \<open>Sorting (C2)\<close>

lemma sorted_example:
  "sorted_contributors example_rows =
   Inr [row ''third'' (JStr ''2024-03-01T00:00:00Z''), row ''first'' (JStr ''2024-01-01T00:00:00Z''),
        row ''second'' JNull, row ''fourth'' JNull]"
  by (simp add: example_rows_def sorted_contributors_def sorted_reverse_def sort_key_of_def
        row_def less_eq_char_def less_char_def)

lemma iso_timestamp_after_sentinel: "iso_timestamp s \<Longrightarrow> ''0'' < s"
proof -
  assume "iso_timestamp s"
  then obtain c cs where s: "s = c # cs" and c: "is_digit c" and cs: "cs \<noteq> []"
    by (auto simp: iso_timestamp_def list_all2_Cons1)
  from c have "CHR ''0'' < c \<or> c = CHR ''0''"
    by (auto simp: is_digit_def less_char_def)
  with cs show ?thesis
    by (cases cs) (auto simp: s)
qed


lemma mset_sorted_reverse: "mset (sorted_reverse f xs) = mset xs"
  by (simp add: sorted_reverse_def)

lemma set_sorted_reverse: "set (sorted_reverse f xs) = set xs"
  by (simp add: sorted_reverse_def)

lemma sorted_reverse_descending:
  "sorted_wrt (\<lambda>a b. f a \<ge> f b) (sorted_reverse f xs)"
proof -
  have "sorted (map f (sort_key f (rev xs)))"
    by (rule sorted_sort_key)
  then have "sorted_wrt (\<lambda>a b. f a \<le> f b) (sort_key f (rev xs))"
    by (simp add: sorted_map)
  then show ?thesis
    by (simp add: sorted_reverse_def sorted_wrt_rev)
qed

lemma sorted_reverse_stable:
  "filter (\<lambda>x. f x = k) (sorted_reverse f xs) = filter (\<lambda>x. f x = k) xs"
  by (simp add: sorted_reverse_def rev_filter [symmetric] sort_key_stable)

lemma dated_cases:
  assumes "dated_or_null x"
  obtains "latest_commit_date x = JNull" "sort_key_of x = JStr ''0''"
  | s where "latest_commit_date x = JStr s" "sort_key_of x = JStr s" "''0'' < s"
proof -
  consider "latest_commit_date x = JNull"
    | s where "latest_commit_date x = JStr s" "iso_timestamp s"
    using assms by (auto simp: dated_or_null_def split: json.splits)
  then show thesis
  proof cases
    case 1
    then show thesis
      by (intro that(1)) (simp_all add: sort_key_of_def)
  next
    case (2 s)
    from 2(2) have lt: "''0'' < s"
      by (rule iso_timestamp_after_sentinel)
    then have "s \<noteq> []"
      by auto
    with 2(1) lt show thesis
      by (intro that(2) [of s]) (simp_all add: sort_key_of_def)
  qed
qed

lemma dated_same_date:
  assumes "dated_or_null x" "dated_or_null y"
  shows "latest_commit_date x = latest_commit_date y \<longleftrightarrow>
         str_of (sort_key_of x) = str_of (sort_key_of y)"
proof (rule dated_cases [OF assms(1)], goal_cases)
  case 1
  show ?thesis
  proof (rule dated_cases [OF assms(2)], goal_cases)
    case y1: 1
    with 1 show ?thesis by simp
  next
    case y2: (2 t)
    from y2(3) have "t \<noteq> ''0''" by auto
    with 1 y2 show ?thesis by simp
  qed
next
  case (2 s)
  from 2(3) have ne: "s \<noteq> ''0''" by auto
  show ?thesis
  proof (rule dated_cases [OF assms(2)], goal_cases)
    case y1: 1
    with 2 ne show ?thesis by simp
  next
    case y2: (2 t)
    with 2 show ?thesis by simp
  qed
qed

lemma dated_is_str: "dated_or_null x \<Longrightarrow> is_str (sort_key_of x)"
  by (rule dated_cases [of x]) simp_all

lemma null_key: "dated_or_null x \<Longrightarrow> latest_commit_date x = JNull \<Longrightarrow> str_of (sort_key_of x) = ''0''"
  by (rule dated_cases [of x]) simp_all

lemma dated_key_above:
  "dated_or_null x \<Longrightarrow> latest_commit_date x \<noteq> JNull \<Longrightarrow> ''0'' < str_of (sort_key_of x)"
  by (rule dated_cases [of x]) simp_all

lemma sorted_contributors_general:
  assumes "list_all dated_or_null cs"
  shows "\<exists>ys. sorted_contributors cs = Inr ys \<and> mset ys = mset cs \<and>
           sorted_wrt (\<lambda>a b. str_of (sort_key_of a) \<ge> str_of (sort_key_of b)) ys \<and>
           sorted_wrt (\<lambda>a b. latest_commit_date a = JNull \<longrightarrow> latest_commit_date b = JNull) ys \<and>
           (\<forall>x \<in> set cs.
              filter (\<lambda>y. latest_commit_date y = latest_commit_date x) ys =
              filter (\<lambda>y. latest_commit_date y = latest_commit_date x) cs)"
proof -
  let ?f = "str_of \<circ> sort_key_of"
  let ?ys = "sorted_reverse ?f cs"
  have all: "\<And>x. x \<in> set cs \<Longrightarrow> dated_or_null x"
    using assms by (simp add: list_all_iff)
  then have "list_all is_str (map sort_key_of cs)"
    by (simp add: list_all_iff dated_is_str)
  then have r: "sorted_contributors cs = Inr ?ys"
    by (simp add: sorted_contributors_def)
  have m: "mset ?ys = mset cs"
    by (rule mset_sorted_reverse)
  have desc0: "sorted_wrt (\<lambda>a b. ?f a \<ge> ?f b) ?ys"
    by (rule sorted_reverse_descending)
  then have desc: "sorted_wrt (\<lambda>a b. str_of (sort_key_of a) \<ge> str_of (sort_key_of b)) ?ys"
    by (simp only: comp_apply)
  have in_ys: "\<And>x. x \<in> set ?ys \<Longrightarrow> dated_or_null x"
    using all by (simp only: set_sorted_reverse)
  have nulls: "sorted_wrt (\<lambda>a b. latest_commit_date a = JNull \<longrightarrow> latest_commit_date b = JNull) ?ys"
  proof (rule sorted_wrt_mono_rel [OF _ desc])
    fix a b
    assume a: "a \<in> set ?ys" and b: "b \<in> set ?ys"
      and le: "str_of (sort_key_of b) \<le> str_of (sort_key_of a)"
    show "latest_commit_date a = JNull \<longrightarrow> latest_commit_date b = JNull"
    proof
      assume "latest_commit_date a = JNull"
      then have "str_of (sort_key_of a) = ''0''"
        by (rule null_key [OF in_ys [OF a]])
      with le have "str_of (sort_key_of b) \<le> ''0''"
        by (simp only:)
      then have "\<not> ''0'' < str_of (sort_key_of b)"
        by (simp only: not_less)
      then show "latest_commit_date b = JNull"
        using dated_key_above [OF in_ys [OF b]] by blast
    qed
  qed
  have stable: "\<forall>x \<in> set cs.
              filter (\<lambda>y. latest_commit_date y = latest_commit_date x) ?ys =
              filter (\<lambda>y. latest_commit_date y = latest_commit_date x) cs"
  proof
    fix x
    assume x: "x \<in> set cs"
    have "filter (\<lambda>y. latest_commit_date y = latest_commit_date x) ?ys =
          filter (\<lambda>y. ?f y = ?f x) ?ys"
      by (rule filter_cong [OF refl]) (simp only: comp_apply dated_same_date [OF in_ys all [OF x]])
    also have "\<dots> = filter (\<lambda>y. ?f y = ?f x) cs"
      by (rule sorted_reverse_stable)
    also have "\<dots> = filter (\<lambda>y. latest_commit_date y = latest_commit_date x) cs"
      by (rule filter_cong [OF refl]) (simp only: comp_apply dated_same_date [OF all all [OF x]])
    finally show "filter (\<lambda>y. latest_commit_date y = latest_commit_date x) ?ys =
                  filter (\<lambda>y. latest_commit_date y = latest_commit_date x) cs" .
  qed
  show ?thesis
    by (intro exI [of _ ?ys] conjI r m desc nulls stable)
qed

text \<open>
  C2. The four example rows, dated 2024-01-01, null, 2024-03-01, null, come out as
  third, first, second, fourth. In general, for every list of records whose dates are
  null or timestamps, the sort returns a rearrangement of the list that is descending
  in the string order of the keys (the date, or \<open>"0"\<close> for null), has every null-dated
  record after all dated ones, and keeps records of the same date (or both null) in
  their input order.
\<close>

theorem sorted_contributors_stable_descending:
  "sorted_contributors example_rows =
     Inr [row ''third'' (JStr ''2024-03-01T00:00:00Z''), row ''first'' (JStr ''2024-01-01T00:00:00Z''),
          row ''second'' JNull, row ''fourth'' JNull]
   \<and> (\<forall>cs. list_all dated_or_null cs \<longrightarrow>
        (\<exists>ys. sorted_contributors cs = Inr ys \<and> mset ys = mset cs \<and>
           sorted_wrt (\<lambda>a b. str_of (sort_key_of a) \<ge> str_of (sort_key_of b)) ys \<and>
           sorted_wrt (\<lambda>a b. latest_commit_date a = JNull \<longrightarrow> latest_commit_date b = JNull) ys \<and>
           (\<forall>x \<in> set cs.
              filter (\<lambda>y. latest_commit_date y = latest_commit_date x) ys =
              filter (\<lambda>y. latest_commit_date y = latest_commit_date x) cs)))"
  using sorted_example sorted_contributors_general by blast

theorem sorted_contributors_stable_descending_witness:
  "list_all dated_or_null example_rows \<and>
   sorted_contributors example_rows =
     Inr [row ''third'' (JStr ''2024-03-01T00:00:00Z''), row ''first'' (JStr ''2024-01-01T00:00:00Z''),
          row ''second'' JNull, row ''fourth'' JNull] \<and>
   filter (\<lambda>y. latest_commit_date y = JNull)
     [row ''third'' (JStr ''2024-03-01T00:00:00Z''), row ''first'' (JStr ''2024-01-01T00:00:00Z''),
      row ''second'' JNull, row ''fourth'' JNull] =
   [row ''second'' JNull, row ''fourth'' JNull]"
proof -
  have d: "list_all dated_or_null example_rows"
    by (simp add: example_rows_def dated_or_null_def row_def iso_timestamp_def is_digit_def)
  from sorted_contributors_stable_descending [THEN conjunct2, rule_format, OF d]
    sorted_contributors_stable_descending [THEN conjunct1] d
  show ?thesis
    by (simp add: row_def)
qed

section \<open>Properties of the request wrapper\<close>

lemma requests_of_append [simp]: "requests_of (xs @ ys) = requests_of xs @ requests_of ys"
  by (simp add: requests_of_def)

lemma requests_of_simps [simp]:
  "requests_of [] = []"
  "requests_of (Get r # evs) = r # requests_of evs"
  "requests_of (Print m # evs) = requests_of evs"
  "requests_of (Sleep d # evs) = requests_of evs"
  by (simp_all add: requests_of_def)

lemma seconds_to_reset_emit [simp]: "seconds_to_reset (emit e w) reset = seconds_to_reset w reset"
  by (simp add: seconds_to_reset_def fromtimestamp_def now_def emit_def cong: sum.case_cong)

lemma passed_emit [simp]: "passed (emit e w) reset = passed w reset"
  by (simp add: passed_def)

lemma unhindered_emit [simp]: "unhindered a (emit e w) = unhindered a w"
  by (simp add: unhindered_def cong: option.case_cong)

lemma quiet_emit [simp]: "quiet srv (emit e w) = quiet srv w"
  by (simp add: quiet_def)

lemma headers_update [simp]: "headers (update_rate_limit r a) = headers a"
  by (simp add: update_rate_limit_def)

text \<open>When the pre-check lets the request go at once, nothing happens in it.\<close>

lemma pre_check_fresh: "rate_limit_remaining a = None \<Longrightarrow> pre_check a w = (None, w)"
  by (simp add: pre_check_def)

lemma pre_check_unhindered: "unhindered a w \<Longrightarrow> pre_check a w = (None, w)"
  by (auto simp: unhindered_def passed_def pre_check_def split: option.splits sum.splits)

text \<open>
  The pre-check on a platform whose offset from UTC is the same at the reset time and
  now, and which can wait so long: it blocks for \<open>reset - now + 5\<close> seconds when they
  are positive. When the reset time does not convert, the exception of the conversion
  is raised.
\<close>

lemma pre_check_same_offset:
  assumes "rate_limit_remaining a = Some remaining" "remaining \<le> 1"
    and "rate_limit_reset a = Some reset"
    and "local_time w (real_of_int reset) = Inr (real_of_int reset + offset)"
    and "local_time w (clock w) = Inr (clock w + offset)"
    and "too_long w (real_of_int reset - clock w + 5) = None"
  shows "pre_check a w =
    (None, if real_of_int reset - clock w + 5 > 0
           then blocked (real_of_int reset - clock w + 5) w else w)"
  using assms
  by (simp add: pre_check_def seconds_to_reset_def fromtimestamp_def now_def Let_def
        sleep_def emit_def blocked_def)

lemma pre_check_reset_out_of_range:
  assumes "rate_limit_remaining a = Some remaining" "remaining \<le> 1"
    and "rate_limit_reset a = Some reset"
    and "local_time w (real_of_int reset) = Inl e"
  shows "pre_check a w = (Some e, w)"
  using assms by (simp add: pre_check_def seconds_to_reset_def fromtimestamp_def)

lemma pre_check_trace: "pre_check a w = (r, w1) \<Longrightarrow> prefix (trace w) (trace w1)"
  by (auto simp: pre_check_def Let_def sleep_def emit_def
           split: option.splits if_splits sum.splits)

lemma make_request_200:
  assumes "pre_check a w = (None, w1)"
    and "status_code (srv w1 \<lparr>url = u, req_headers = headers a, params = ps\<rparr>) = 200"
    and "body (srv w1 \<lparr>url = u, req_headers = headers a, params = ps\<rparr>) = Some j"
  shows "make_request srv u ps (a, w) =
    Some (Inr j, update_rate_limit (srv w1 \<lparr>url = u, req_headers = headers a, params = ps\<rparr>) a,
          emit (Get \<lparr>url = u, req_headers = headers a, params = ps\<rparr>) w1)"
  using assms by (subst make_request.simps) (simp add: handle_response_def Let_def)

lemma page_number_page_request [simp]: "page_number (page_request a u p) = p"
  by (simp add: page_number_def page_request_def page_params_def)

lemma fetch_page:
  assumes "list_endpoint pages srv" "quiet srv w" "unhindered a w"
  shows "\<exists>a'. make_request srv u (Some (page_params p)) (a, w) =
              Some (Inr (pages p), a', emit (Get (page_request a u p)) w) \<and>
           unhindered a' (emit (Get (page_request a u p)) w) \<and> headers a' = headers a"
proof -
  have w1: "pre_check a w = (None, w)"
    by (rule pre_check_unhindered [OF assms(3)])
  let ?req = "\<lparr>url = u, req_headers = headers a, params = Some (page_params p)\<rparr>"
  have req: "?req = page_request a u p"
    by (simp add: page_request_def)
  from assms(1) have "status_code (srv w ?req) = 200" and "body (srv w ?req) = Some (pages p)"
    by (simp_all add: list_endpoint_def req)
  then have "make_request srv u (Some (page_params p)) (a, w) =
      Some (Inr (pages p), update_rate_limit (srv w ?req) a, emit (Get ?req) w)"
    using w1 by (intro make_request_200)
  moreover from assms(2) have "unhindered (update_rate_limit (srv w ?req) a) w"
    by (simp add: quiet_def)
  ultimately show ?thesis
    by (simp add: req)
qed

lemma contributors_loop_pages:
  assumes "list_endpoint pages srv"
    and "quiet srv w" "unhindered a w"
    and "\<forall>k < n. full_page (pages (p + int k))"
    and "\<not> full_page (pages (p + int n))"
  shows "\<exists>a'. contributors_loop srv u p acc (a, w) =
            Some (Inr (acc @ concat (map (\<lambda>q. items_of (pages q)) [p..p + int n])), a',
                  w\<lparr>trace := trace w @ map (\<lambda>q. Get (page_request a u q)) [p..p + int n]\<rparr>)"
  using assms(2-)
proof (induction n arbitrary: p acc a w)
  case 0
  from fetch_page [OF assms(1) "0.prems"(1,2), of u p] obtain a1 where
    f: "make_request srv u (Some (page_params p)) (a, w) =
          Some (Inr (pages p), a1, emit (Get (page_request a u p)) w)"
    by blast
  from "0.prems"(4) have nf: "\<not> truthy (pages p) \<or> \<not> is_list (pages p) \<or> length (items_of (pages p)) < 100"
    by (auto simp: full_page_def)
  have e: "\<not> truthy (pages p) \<or> \<not> is_list (pages p) \<Longrightarrow> items_of (pages p) = []"
    by (cases "pages p") auto
  from f nf e show ?case
    by (subst contributors_loop.simps) (auto simp: emit_def)
next
  case (Suc n)
  let ?w1 = "emit (Get (page_request a u p)) w"
  from fetch_page [OF assms(1) Suc.prems(1,2), of u p] obtain a1 where
    f: "make_request srv u (Some (page_params p)) (a, w) = Some (Inr (pages p), a1, ?w1)" and
    c: "unhindered a1 ?w1" and h: "headers a1 = headers a"
    by blast
  from Suc.prems(1) have q: "quiet srv ?w1"
    by simp
  from Suc.prems(3) have "full_page (pages (p + int 0))"
    by blast
  then have full: "is_list (pages p)" "\<not> length (items_of (pages p)) < 100" "truthy (pages p)"
    by (cases "pages p"; auto simp: full_page_def)+
  have later: "\<forall>k < n. full_page (pages (p + 1 + int k))"
  proof (intro allI impI)
    fix k assume "k < n"
    then have "full_page (pages (p + int (Suc k)))"
      using Suc.prems(3) by blast
    then show "full_page (pages (p + 1 + int k))"
      by (simp add: add.assoc)
  qed
  from Suc.prems(4) have last: "\<not> full_page (pages (p + 1 + int n))"
    by (simp add: add.assoc)
  from Suc.IH [OF q c later last, of "acc @ items_of (pages p)"] obtain a' where
    r: "contributors_loop srv u (p + 1) (acc @ items_of (pages p)) (a1, ?w1) =
          Some (Inr ((acc @ items_of (pages p)) @
                 concat (map (\<lambda>q. items_of (pages q)) [p + 1..p + 1 + int n])), a',
                ?w1\<lparr>trace := trace ?w1 @
                   map (\<lambda>q. Get (page_request a1 u q)) [p + 1..p + 1 + int n]\<rparr>)"
    by blast
  have pr: "page_request a1 u = page_request a u"
    by (rule ext) (simp add: page_request_def h)
  have up: "[p..p + int (Suc n)] = p # [p + 1..p + 1 + int n]"
    by (simp add: upto_rec1 add.commute add.left_commute)
  have "contributors_loop srv u p acc (a, w) =
        contributors_loop srv u (p + 1) (acc @ items_of (pages p)) (a1, ?w1)"
    using f full by (subst contributors_loop.simps) simp
  with r pr up show ?case
    by (simp add: emit_def)
qed

text \<open>The events of a call are added at the end, the request after those of the pre-check.\<close>

lemma handle_response_trace:
  "handle_response a r w = Return v w' \<Longrightarrow> prefix (trace w) (trace w')"
  "handle_response a r w = Retry w' \<Longrightarrow> prefix (trace w) (trace w')"
  by (auto simp: handle_response_def Let_def emit_def sleep_def
           split: if_splits option.splits sum.splits bool.splits)

lemma make_request_trace:
  assumes "make_request srv u ps s = Some res"
  shows "prefix (trace (snd s)) (trace (snd (snd res)))"
  using assms
proof (induction rule: make_request.raw_induct [rotated, consumes 1])
  case (1 make_request_rec srv u ps s res)
  obtain e w1 where pc: "pre_check (fst s) (snd s) = (e, w1)"
    by (cases "pre_check (fst s) (snd s)")
  from pre_check_trace [OF pc] have p1: "prefix (trace (snd s)) (trace w1)" .
  show ?case
  proof (cases e)
    case (Some err)
    with 1(2) pc p1 show ?thesis by auto
  next
    case None
    let ?req = "\<lparr>url = u, req_headers = headers (fst s), params = ps\<rparr>"
    let ?a2 = "update_rate_limit (srv w1 ?req) (fst s)"
    have p2: "prefix (trace w1) (trace (emit (Get ?req) w1))"
      by (simp add: emit_def)
    show ?thesis
    proof (cases "handle_response ?a2 (srv w1 ?req) (emit (Get ?req) w1)")
      case (Return v w3)
      with 1(2) pc None have "res = (v, ?a2, w3)"
        by (simp add: Let_def)
      with handle_response_trace(1) [OF Return] p1 p2 show ?thesis
        by (auto intro: prefix_order.trans)
    next
      case (Retry w3)
      with 1(2) pc None have "make_request_rec srv u ps (?a2, w3) = Some res"
        by (simp add: Let_def)
      from 1(1) [OF this] have "prefix (trace w3) (trace (snd (snd res)))"
        by simp
      with handle_response_trace(2) [OF Retry] p1 p2 show ?thesis
        by (auto intro: prefix_order.trans)
    qed
  qed
qed

lemma make_request_first_send:
  assumes "pre_check a w = (None, w1)" and "make_request srv u ps (a, w) = Some (v, a', w')"
  shows "prefix (trace w1 @ [Get \<lparr>url = u, req_headers = headers a, params = ps\<rparr>]) (trace w')"
proof -
  let ?req = "\<lparr>url = u, req_headers = headers a, params = ps\<rparr>"
  let ?a2 = "update_rate_limit (srv w1 ?req) a"
  have e: "trace (emit (Get ?req) w1) = trace w1 @ [Get ?req]"
    by (simp add: emit_def)
  show ?thesis
  proof (cases "handle_response ?a2 (srv w1 ?req) (emit (Get ?req) w1)")
    case (Return v3 w3)
    with assms have "w' = w3"
      by (subst (asm) make_request.simps) (simp add: Let_def)
    with handle_response_trace(1) [OF Return] e show ?thesis
      by simp
  next
    case (Retry w3)
    with assms have "make_request srv u ps (?a2, w3) = Some (v, a', w')"
      by (subst (asm) make_request.simps) (simp add: Let_def)
    from make_request_trace [OF this] have "prefix (trace w3) (trace w')"
      by simp
    with handle_response_trace(2) [OF Retry] e show ?thesis
      by (metis prefix_order.trans)
  qed
qed

section \<open>The rate-limit pre-check (C8)\<close>

text \<open>
  C8. With a remaining quota of 1 and a reset ten seconds ahead the claim wants a block
  of at least 10 seconds before the request. Lines 42 to 44 do not subtract the times
  since the epoch: they subtract \<open>datetime.fromtimestamp(reset)\<close> and \<open>datetime.now()\<close>,
  two naive local times. Five seconds before the clocks of New York go back one hour,
  now reads 01:59:55 and the reset, ten seconds later, 01:00:05: the sleep time is
  \<open>-3585\<close>, the pre-check does not block, and the request is sent at once. (Where the
  offset from UTC is the same at both times and the platform can wait so long, the
  block is \<open>reset - now + 5\<close> seconds: lemma \<open>pre_check_same_offset\<close>.)
\<close>

theorem no_block_across_clock_change:
  "rate_limit_remaining throttled = Some 1 \<and>
   rate_limit_reset throttled = Some 1793512805 \<and>
   real_of_int 1793512805 = clock before_change + 10 \<and>
   seconds_to_reset before_change 1793512805 = Inr (- 3585) \<and>
   pre_check throttled before_change = (None, before_change) \<and>
   make_request (fake_endpoint (\<lambda>p. JObj [])) ''https://api.github.com/users/octocat'' None
     (throttled, before_change) =
   Some (Inr (JObj []),
         throttled\<lparr>rate_limit_remaining := Some 0, rate_limit_reset := Some 0\<rparr>,
         before_change\<lparr>trace :=
           [Get \<lparr>url = ''https://api.github.com/users/octocat'',
                 req_headers = [(''Accept'', ''application/vnd.github.v3+json'')],
                 params = None\<rparr>]\<rparr>)"
proof -
  have s: "seconds_to_reset before_change 1793512805 = Inr (- 3585)"
    by (simp add: seconds_to_reset_def fromtimestamp_def now_def before_change_def new_york_def)
  have p: "pre_check throttled before_change = (None, before_change)"
    by (simp add: pre_check_def throttled_def s)
  have "make_request (fake_endpoint (\<lambda>p. JObj [])) ''https://api.github.com/users/octocat'' None
     (throttled, before_change) =
   Some (Inr (JObj []),
         update_rate_limit (fake_endpoint (\<lambda>p. JObj []) before_change
             \<lparr>url = ''https://api.github.com/users/octocat'', req_headers = headers throttled,
               params = None\<rparr>) throttled,
         emit (Get \<lparr>url = ''https://api.github.com/users/octocat'', req_headers = headers throttled,
               params = None\<rparr>) before_change)"
    by (rule make_request_200 [OF p]) (simp_all add: fake_endpoint_def)
  with s p show ?thesis
    by (simp add: fake_endpoint_def update_rate_limit_def emit_def before_change_def
          throttled_def init_def)
qed

section \<open>Pagination (C5)\<close>

lemma upto_three: "[1..3::int] = [1, 2, 3]"
  by (simp add: upto_rec1)

lemma quiet_fake_endpoint: "quiet (fake_endpoint pages) start"
  by (simp add: quiet_def unhindered_def passed_def seconds_to_reset_def fromtimestamp_def
        now_def update_rate_limit_def fake_endpoint_def start_def utc_def)

text \<open>
  C5. Against a list endpoint whose answers let the next request go at once (they
  report quota left, or a reset time that has passed, as an endpoint without rate-limit
  headers does), the fetcher asks for page 1, 2, 3 and so on, each with \<open>per_page\<close>
  100, and stops at the first page that is not a list of 100 items or more (a shorter
  list, an empty list, or no list): with \<open>n\<close> full pages before it, the call returns,
  after exactly the \<open>n + 1\<close> requests for the pages 1 to \<open>n + 1\<close> in this order and
  nothing else, the items of these pages in page order. In particular, with pages of
  100, 100 and 37 items it sends exactly the three requests for pages 1, 2, 3 and
  returns the 237 items in page order.
\<close>

theorem pagination:
  assumes "list_endpoint pages srv" "quiet srv w" "unhindered a w"
  shows "(\<forall>n. (\<forall>k < n. full_page (pages (1 + int k))) \<and> \<not> full_page (pages (1 + int n)) \<longrightarrow>
           (\<exists>a'. get_repository_contributors srv owner repo (a, w) =
                Some (Inr (concat (map (\<lambda>q. items_of (pages q)) [1..1 + int n])), a',
                      w\<lparr>trace := trace w @
                         map (\<lambda>q. Get (page_request a (contributors_url a owner repo) q))
                           [1..1 + int n]\<rparr>)))
       \<and> (is_list (pages 1) \<and> length (items_of (pages 1)) = 100 \<and>
          is_list (pages 2) \<and> length (items_of (pages 2)) = 100 \<and>
          is_list (pages 3) \<and> length (items_of (pages 3)) = 37 \<longrightarrow>
           (\<exists>items a'. get_repository_contributors srv owner repo (a, w) =
                Some (Inr items, a',
                      w\<lparr>trace := trace w @
                         [Get (page_request a (contributors_url a owner repo) 1),
                          Get (page_request a (contributors_url a owner repo) 2),
                          Get (page_request a (contributors_url a owner repo) 3)]\<rparr>) \<and>
              items = items_of (pages 1) @ items_of (pages 2) @ items_of (pages 3) \<and>
              length items = 237))"
proof -
  have general: "\<And>n. (\<forall>k < n. full_page (pages (1 + int k))) \<Longrightarrow> \<not> full_page (pages (1 + int n)) \<Longrightarrow>
           (\<exists>a'. get_repository_contributors srv owner repo (a, w) =
                Some (Inr (concat (map (\<lambda>q. items_of (pages q)) [1..1 + int n])), a',
                      w\<lparr>trace := trace w @
                         map (\<lambda>q. Get (page_request a (contributors_url a owner repo) q))
                           [1..1 + int n]\<rparr>))"
    using contributors_loop_pages [OF assms, of _ 1 "contributors_url a owner repo" "[]"]
    by (simp add: get_repository_contributors_def)
  have example: "is_list (pages 1) \<and> length (items_of (pages 1)) = 100 \<and>
          is_list (pages 2) \<and> length (items_of (pages 2)) = 100 \<and>
          is_list (pages 3) \<and> length (items_of (pages 3)) = 37 \<longrightarrow>
           (\<exists>items a'. get_repository_contributors srv owner repo (a, w) =
                Some (Inr items, a',
                      w\<lparr>trace := trace w @
                         [Get (page_request a (contributors_url a owner repo) 1),
                          Get (page_request a (contributors_url a owner repo) 2),
                          Get (page_request a (contributors_url a owner repo) 3)]\<rparr>) \<and>
              items = items_of (pages 1) @ items_of (pages 2) @ items_of (pages 3) \<and>
              length items = 237)"
  proof
    assume h: "is_list (pages 1) \<and> length (items_of (pages 1)) = 100 \<and>
          is_list (pages 2) \<and> length (items_of (pages 2)) = 100 \<and>
          is_list (pages 3) \<and> length (items_of (pages 3)) = 37"
    have "\<forall>k < 2. full_page (pages (1 + int k))"
    proof (intro allI impI)
      fix k :: nat assume "k < 2"
      then have "k = 0 \<or> k = 1" by auto
      with h show "full_page (pages (1 + int k))"
        by (auto simp: full_page_def)
    qed
    moreover from h have "\<not> full_page (pages (1 + int 2))"
      by (simp add: full_page_def)
    ultimately obtain a' where
      "get_repository_contributors srv owner repo (a, w) =
         Some (Inr (concat (map (\<lambda>q. items_of (pages q)) [1..1 + int 2])), a',
               w\<lparr>trace := trace w @
                  map (\<lambda>q. Get (page_request a (contributors_url a owner repo) q))
                    [1..1 + int 2]\<rparr>)"
      using general [of 2] by blast
    with h show "\<exists>items a'. get_repository_contributors srv owner repo (a, w) =
                Some (Inr items, a',
                      w\<lparr>trace := trace w @
                         [Get (page_request a (contributors_url a owner repo) 1),
                          Get (page_request a (contributors_url a owner repo) 2),
                          Get (page_request a (contributors_url a owner repo) 3)]\<rparr>) \<and>
              items = items_of (pages 1) @ items_of (pages 2) @ items_of (pages 3) \<and>
              length items = 237"
      by (simp add: upto_three)
  qed
  from general example show ?thesis
    by blast
qed

theorem pagination_witness:
  "list_endpoint three_pages (fake_endpoint three_pages) \<and>
   quiet (fake_endpoint three_pages) start \<and> unhindered (init None) start \<and>
   full_page (three_pages 1) \<and> full_page (three_pages 2) \<and> \<not> full_page (three_pages 3) \<and>
   length (items_of (three_pages 3)) = 37 \<and>
   map_option (\<lambda>(v, a, w). (map_sum id length v, map page_number (requests_of (trace w)), trace w))
     (get_repository_contributors (fake_endpoint three_pages) ''acme'' ''widgets'' (init None, start))
   = Some (Inr 237, [1, 2, 3],
       [Get \<lparr>url = ''https://api.github.com/repos/acme/widgets/contributors'',
             req_headers = [(''Accept'', ''application/vnd.github.v3+json'')],
             params = Some [(''per_page'', JNum 100), (''page'', JNum 1)]\<rparr>,
        Get \<lparr>url = ''https://api.github.com/repos/acme/widgets/contributors'',
             req_headers = [(''Accept'', ''application/vnd.github.v3+json'')],
             params = Some [(''per_page'', JNum 100), (''page'', JNum 2)]\<rparr>,
        Get \<lparr>url = ''https://api.github.com/repos/acme/widgets/contributors'',
             req_headers = [(''Accept'', ''application/vnd.github.v3+json'')],
             params = Some [(''per_page'', JNum 100), (''page'', JNum 3)]\<rparr>])"
proof -
  have e: "list_endpoint three_pages (fake_endpoint three_pages)"
    by (simp add: list_endpoint_def fake_endpoint_def)
  have q: "quiet (fake_endpoint three_pages) start"
    by (rule quiet_fake_endpoint)
  have c: "unhindered (init None) start"
    by (simp add: unhindered_def init_def)
  have p: "is_list (three_pages 1) \<and> length (items_of (three_pages 1)) = 100 \<and>
           is_list (three_pages 2) \<and> length (items_of (three_pages 2)) = 100 \<and>
           is_list (three_pages 3) \<and> length (items_of (three_pages 3)) = 37"
    by (simp add: three_pages_def)
  from pagination [OF e q c, of "''acme''" "''widgets''", THEN conjunct2, rule_format, OF p]
  obtain items a' where
    g: "get_repository_contributors (fake_endpoint three_pages) ''acme'' ''widgets'' (init None, start) =
       Some (Inr items, a',
             start\<lparr>trace := trace start @
                [Get (page_request (init None) (contributors_url (init None) ''acme'' ''widgets'') 1),
                 Get (page_request (init None) (contributors_url (init None) ''acme'' ''widgets'') 2),
                 Get (page_request (init None) (contributors_url (init None) ''acme'' ''widgets'') 3)]\<rparr>)"
    and len: "length items = 237"
    by blast
  have m: "map_option (\<lambda>(v, a, w). (map_sum id length v, map page_number (requests_of (trace w)), trace w))
     (get_repository_contributors (fake_endpoint three_pages) ''acme'' ''widgets'' (init None, start))
   = Some (Inr 237, [1, 2, 3],
       [Get \<lparr>url = ''https://api.github.com/repos/acme/widgets/contributors'',
             req_headers = [(''Accept'', ''application/vnd.github.v3+json'')],
             params = Some [(''per_page'', JNum 100), (''page'', JNum 1)]\<rparr>,
        Get \<lparr>url = ''https://api.github.com/repos/acme/widgets/contributors'',
             req_headers = [(''Accept'', ''application/vnd.github.v3+json'')],
             params = Some [(''per_page'', JNum 100), (''page'', JNum 2)]\<rparr>,
        Get \<lparr>url = ''https://api.github.com/repos/acme/widgets/contributors'',
             req_headers = [(''Accept'', ''application/vnd.github.v3+json'')],
             params = Some [(''per_page'', JNum 100), (''page'', JNum 3)]\<rparr>])"
    unfolding g using len
    by (simp add: start_def page_request_def contributors_url_def init_def page_params_def
          page_number_def)
  from e q c p m show ?thesis
    by (simp only: full_page_def) simp
qed

section \<open>Responses that are not 200 (C6)\<close>

text \<open>
  What the wrapper does do: for a status other than 200 and 403, and for a 403 whose
  body is a JSON object with a string message that does not mention the rate limit,
  it prints the status with the text and returns the empty \<open>dict\<close>.
\<close>


lemma make_request_other_status:
  assumes "pre_check a w = (None, w1)"
    and "status_code (srv w1 \<lparr>url = u, req_headers = headers a, params = ps\<rparr>) \<noteq> 200"
    and "status_code (srv w1 \<lparr>url = u, req_headers = headers a, params = ps\<rparr>) \<noteq> 403"
  shows "make_request srv u ps (a, w) =
    Some (Inr (JObj []),
          update_rate_limit (srv w1 \<lparr>url = u, req_headers = headers a, params = ps\<rparr>) a,
          emit (Print (Error_status
                  (status_code (srv w1 \<lparr>url = u, req_headers = headers a, params = ps\<rparr>))
                  (text_of (srv w1 \<lparr>url = u, req_headers = headers a, params = ps\<rparr>))))
            (emit (Get \<lparr>url = u, req_headers = headers a, params = ps\<rparr>) w1))"
  using assms by (subst make_request.simps) (simp add: handle_response_def Let_def)

lemma make_request_forbidden_other:
  assumes "pre_check a w = (None, w1)"
    and "status_code (srv w1 \<lparr>url = u, req_headers = headers a, params = ps\<rparr>) = 403"
    and "body (srv w1 \<lparr>url = u, req_headers = headers a, params = ps\<rparr>) = Some (JObj kvs)"
    and "get_or kvs ''message'' (JStr '''') = JStr m"
    and "\<not> contains (py_lower m) ''rate limit''"
  shows "make_request srv u ps (a, w) =
    Some (Inr (JObj []),
          update_rate_limit (srv w1 \<lparr>url = u, req_headers = headers a, params = ps\<rparr>) a,
          emit (Print (Error_status 403
                  (text_of (srv w1 \<lparr>url = u, req_headers = headers a, params = ps\<rparr>))))
            (emit (Get \<lparr>url = u, req_headers = headers a, params = ps\<rparr>) w1))"
  using assms
  by (subst make_request.simps)
     (simp add: handle_response_def rate_limit_message_def Let_def del: contains.simps)

lemma make_request_html_forbidden:
  "make_request html_forbidden u ps (init token, w) =
     Some (Inl JSONDecodeError,
           (init token)\<lparr>rate_limit_remaining := Some 0, rate_limit_reset := Some 0\<rparr>,
           emit (Get \<lparr>url = u, req_headers = headers (init token), params = ps\<rparr>) w)"
proof -
  have "pre_check (init token) w = (None, w)"
    by (rule pre_check_fresh) (simp add: init_def)
  then show ?thesis
    by (subst make_request.simps)
       (simp add: handle_response_def rate_limit_message_def html_forbidden_def
          update_rate_limit_def Let_def)
qed

lemma extract_acme_widgets: "extract_repo_info ''acme/widgets'' = Inr (''acme'', ''widgets'')"
  by (simp add: extract_repo_info_def url_parts_def clean_url_def py_strip_def is_space_def
        startswith_def endswith_def)

text \<open>
  And a caller takes the empty \<open>dict\<close> for missing data: when every request is
  answered 404, the list of contributors is empty and the script ends with an empty
  report.
\<close>

lemma contributors_not_found:
  assumes "\<forall>w req. status_code (srv w req) = 404" "rate_limit_remaining a = None"
  shows "\<exists>a' w'. get_repository_contributors srv owner repo (a, w) = Some (Inr [], a', w')"
proof -
  have p: "pre_check a w = (None, w)"
    by (rule pre_check_fresh [OF assms(2)])
  show ?thesis
    unfolding get_repository_contributors_def
    by (subst contributors_loop.simps)
       (simp add: make_request_other_status [OF p] assms(1))
qed

lemma script_not_found:
  assumes "\<forall>w req. status_code (srv w req) = 404"
  shows "\<exists>w'. script srv ''acme/widgets'' token w = Some (Inr [], w')"
proof -
  have "rate_limit_remaining (init token) = None"
    by (simp add: init_def)
  from contributors_not_found [OF assms this] obtain a' w' where
    "get_repository_contributors srv ''acme'' ''widgets''
       (init token, emit (Print (Analyzing ''acme'' ''widgets'')) w) = Some (Inr [], a', w')"
    by blast
  then show ?thesis
    by (simp add: script_def extract_acme_widgets analyze_repository_def sorted_contributors_def
          sorted_reverse_def)
qed


text \<open>
  C6. A 403 whose body is not JSON (an HTML page of a proxy, say) is a response that
  is neither 200 nor a rate-limit 403, and the claim wants the empty mapping and a run
  that goes on. The test of line 60 calls \<open>response.json()\<close> for every 403, before the
  \<open>else\<close> branch is reached: the call raises, and so do \<open>get_repository_contributors\<close>,
  \<open>analyze_repository\<close> and the script, after the first request.
\<close>

theorem forbidden_html_raises:
  "make_request html_forbidden u ps (init token, w) =
     Some (Inl JSONDecodeError,
           (init token)\<lparr>rate_limit_remaining := Some 0, rate_limit_reset := Some 0\<rparr>,
           emit (Get \<lparr>url = u, req_headers = headers (init token), params = ps\<rparr>) w)
   \<and> script html_forbidden ''acme/widgets'' None start =
     Some (Inl JSONDecodeError,
           start\<lparr>trace :=
                   [Print (Analyzing ''acme'' ''widgets''),
                    Get \<lparr>url = ''https://api.github.com/repos/acme/widgets/contributors'',
                         req_headers = [(''Accept'', ''application/vnd.github.v3+json'')],
                         params = Some [(''per_page'', JNum 100), (''page'', JNum 1)]\<rparr>]\<rparr>)"
proof -
  have "script html_forbidden ''acme/widgets'' None start =
     Some (Inl JSONDecodeError,
           start\<lparr>trace :=
                   [Print (Analyzing ''acme'' ''widgets''),
                    Get \<lparr>url = ''https://api.github.com/repos/acme/widgets/contributors'',
                         req_headers = [(''Accept'', ''application/vnd.github.v3+json'')],
                         params = Some [(''per_page'', JNum 100), (''page'', JNum 1)]\<rparr>]\<rparr>)"
    apply (simp add: script_def extract_acme_widgets analyze_repository_def
        get_repository_contributors_def)
    apply (subst contributors_loop.simps)
    apply (simp add: make_request_html_forbidden)
    apply (simp add: init_def emit_def start_def contributors_url_def page_params_def)
    done
  with make_request_html_forbidden show ?thesis
    by blast
qed

section \<open>Invalid references (C9)\<close>

text \<open>The number of parts of a split is one more than the number of separators.\<close>

lemma py_split_length: "length (py_split [c] s) = Suc (length (filter (\<lambda>x. x = c) s))"
  by (induction s) (auto split: list.splits)

lemma one_part_iff: "length (py_split [c] s) < 2 \<longleftrightarrow> c \<notin> set s"
  by (auto simp: py_split_length filter_empty_conv)

text \<open>
  C9. Every reference that gives fewer than two parts after the normalisation fails
  with the \<open>ValueError\<close> of line 263 (the spec's \<open>InvalidRepoReference\<close>), and the script
  ends there, with the world as it was: no request has been sent. The reference
  \<open>acme\<close> is one of them.
\<close>

theorem invalid_reference_fails:
  assumes "length (url_parts (clean_url s)) < 2"
  shows "extract_repo_info s =
           Inl (ValueError (''Could not extract owner and repo name from URL: '' @ s))
       \<and> script srv s token w =
           Some (Inl (ValueError (''Could not extract owner and repo name from URL: '' @ s)), w)"
  using assms by (simp add: extract_repo_info_def script_def)

theorem invalid_reference_fails_witness:
  "length (url_parts (clean_url ''acme'')) < 2 \<and>
   extract_repo_info ''acme'' =
     Inl (ValueError ''Could not extract owner and repo name from URL: acme'') \<and>
   script html_forbidden ''acme'' None start =
     Some (Inl (ValueError ''Could not extract owner and repo name from URL: acme''), start) \<and>
   requests_of (trace start) = []"
proof -
  have l: "length (url_parts (clean_url ''acme'')) < 2"
    by (simp add: url_parts_def clean_url_def py_strip_def is_space_def startswith_def endswith_def)
  from invalid_reference_fails [OF l, of html_forbidden None start] l show ?thesis
    by (simp add: start_def)
qed

end
